theory Spec2Isabelle
  imports
    Main
    "HOL-Library.AList"
    "HOL-Library.Product_Lexorder"
    "HOL-Library.Char_ord"
    "HOL-Library.List_Lexorder"
begin

section \<open>The emergency-department queue engine of \<^verbatim>\<open>ifem_award_api/app.py\<close>\<close>

text \<open>
  The development embeds the queue-state engine of \<^verbatim>\<open>app.py\<close>: the phase and
  investigation state machine (\<^verbatim>\<open>progress_patient_phase\<close>), one advancement pass over
  the population (\<^verbatim>\<open>update_patients\<close>) and the queue request (\<^verbatim>\<open>get_queue\<close>).

  Conventions of the embedding.
  \<^item> Python exceptions are values of \<open>error\<close>. A function that can raise returns the
    store as it is when the exception leaves it (Redis writes are not rolled back)
    together with the exception.
  \<^item> The Redis database is the record \<open>ed_state\<close>: the \<^verbatim>\<open>patient:*\<close> keys as an
    association list from patient id to patient, in the order \<^verbatim>\<open>scan_iter\<close> yields
    them, and the \<^verbatim>\<open>last_update\<close> key as an optional timestamp. The 24-hour expiry
    of the patient keys is outside the model.
  \<^item> Everything the environment decides is a parameter: the readings of
    \<^verbatim>\<open>datetime.now()\<close>, the results of \<^verbatim>\<open>random.choices\<close> and
    \<^verbatim>\<open>random.random() < 0.3\<close>, and the patients returned by
    \<^verbatim>\<open>generate_mock_patient()\<close>.
  \<^item> Timestamps are integers counting microseconds (the resolution of
    \<^verbatim>\<open>datetime\<close>); the float division of \<^verbatim>\<open>total_seconds() / 60\<close> is taken
    as exact.
\<close>

subsection \<open>Data model\<close>

datatype error = KeyError | UnboundLocalError | AttributeError | TypeError

text \<open>
  Modelled from the spec: the class \<^verbatim>\<open>Patient\<close> (\<^verbatim>\<open>patients.py\<close>) is not part of
  the sources. Its fields are those \<^verbatim>\<open>app.py\<close> reads and writes (\<^verbatim>\<open>id\<close>,
  \<^verbatim>\<open>triage_category\<close>, \<^verbatim>\<open>arrival_time\<close>, \<^verbatim>\<open>status\<close>, \<^verbatim>\<open>queue_position\<close>), with
  the shapes of the spec's data model: \<^verbatim>\<open>status\<close> holds \<^verbatim>\<open>current_phase\<close> and,
  when present, \<^verbatim>\<open>investigations\<close>, a mapping of the two test kinds \<^verbatim>\<open>labs\<close> and
  \<^verbatim>\<open>imaging\<close> to an investigation state; \<^verbatim>\<open>queue_position\<close> holds \<^verbatim>\<open>global\<close>
  and \<^verbatim>\<open>category\<close>. Phases and investigation states are the strings the code
  compares them with.
\<close>

record investigation_states =
  labs :: string
  imaging :: string

record patient_status =
  current_phase :: string
  investigations :: "investigation_states option"

record position =
  qp_global :: int
  qp_category :: int

record patient =
  patient_id :: string
  triage_category :: int
  arrival_time :: int
  status :: patient_status
  queue_position :: position

record ed_state =
  patients :: "(string \<times> patient) list"
  last_update :: "int option"

text \<open>The outcome of \<^verbatim>\<open>random.choices(['admitted', 'discharged'], weights=[15, 85])[0]\<close>.\<close>

datatype choice = ChoseAdmitted | ChoseDischarged

fun choice_phase :: "choice \<Rightarrow> string" where
  "choice_phase ChoseAdmitted = ''admitted''"
| "choice_phase ChoseDischarged = ''discharged''"

text \<open>
  Modelled from the spec: \<^verbatim>\<open>InvestigationState.ORDERED.value\<close> (\<^verbatim>\<open>enums.py\<close>) is not
  part of the sources; the spec names the first investigation state \<^verbatim>\<open>ordered\<close>.
\<close>

definition InvestigationState_ORDERED :: string where
  "InvestigationState_ORDERED = ''ordered''"

subsection \<open>The store: \<^verbatim>\<open>RedisEDState\<close>\<close>

text \<open>
  \<^verbatim>\<open>get_patients\<close> builds a dict keyed by the id of each stored patient, in scan
  order; a later entry with the same id replaces the value of the earlier one.
\<close>

definition get_patients :: "ed_state \<Rightarrow> (string \<times> patient) list" where
  "get_patients s =
     foldl (\<lambda>d kv. AList.update (patient_id (snd kv)) (snd kv) d) [] (patients s)"

definition add_patient :: "ed_state \<Rightarrow> patient \<Rightarrow> ed_state" where
  "add_patient s patient =
     s\<lparr>patients := AList.update (patient_id patient) patient (patients s)\<rparr>"

definition remove_patient :: "ed_state \<Rightarrow> string \<Rightarrow> ed_state" where
  "remove_patient s pid = s\<lparr>patients := AList.delete pid (patients s)\<rparr>"

subsection \<open>\<^verbatim>\<open>progress_patient_phase\<close>\<close>

text \<open>
  The dict \<^verbatim>\<open>phase_transitions\<close> is rebuilt on every call, so every call draws from
  \<^verbatim>\<open>random.choices\<close>; \<open>drawn\<close> is the outcome of that draw.
\<close>

definition phase_transitions :: "choice \<Rightarrow> string \<rightharpoonup> string" where
  "phase_transitions drawn =
     [''registered'' \<mapsto> ''triaged'',
      ''triaged'' \<mapsto> ''investigations_pending'',
      ''investigations_pending'' \<mapsto> ''treatment'',
      ''treatment'' \<mapsto> choice_phase drawn]"

text \<open>The body of the loop over \<^verbatim>\<open>['labs', 'imaging']\<close>, for one test type.\<close>

definition progress_test :: "string \<Rightarrow> string" where
  "progress_test current_state =
     (if current_state = ''ordered'' then ''pending''
      else if current_state = ''pending'' then ''reported''
      else current_state)"

definition progress_patient_phase :: "choice \<Rightarrow> patient \<Rightarrow> patient" where
  "progress_patient_phase drawn patient =
     (let phase = current_phase (status patient) in
      case phase_transitions drawn phase of
        None \<Rightarrow> patient
      | Some new_phase \<Rightarrow>
          (let st = (status patient)\<lparr>current_phase := new_phase\<rparr> in
           if new_phase = ''investigations_pending'' then
             patient\<lparr>status := st\<lparr>investigations :=
               Some \<lparr>labs = InvestigationState_ORDERED, imaging = InvestigationState_ORDERED\<rparr>\<rparr>\<rparr>
           else if phase = ''investigations_pending'' then
             (case investigations st of
                None \<Rightarrow> patient\<lparr>status := st\<rparr>
              | Some tests \<Rightarrow>
                  patient\<lparr>status := st\<lparr>investigations :=
                    Some \<lparr>labs = progress_test (labs tests),
                          imaging = progress_test (imaging tests)\<rparr>\<rparr>\<rparr>)
           else patient\<lparr>status := st\<rparr>))"

subsection \<open>\<^verbatim>\<open>update_patients\<close>\<close>

definition terminal :: "patient \<Rightarrow> bool" where
  "terminal patient \<longleftrightarrow> current_phase (status patient) \<in> set [''discharged'', ''admitted'']"

text \<open>The sort key \<^verbatim>\<open>lambda p: (p.triage_category, p.arrival_time)\<close>.\<close>

definition canonical_key :: "patient \<Rightarrow> int \<times> int" where
  "canonical_key p = (triage_category p, arrival_time p)"

text \<open>
  The first loop. It returns \<^verbatim>\<open>patient_list\<close> with the surviving patients mutated
  in place, \<^verbatim>\<open>removed_patients\<close>, and the store. \<open>draws\<close> enumerates the outcomes
  of \<^verbatim>\<open>random.choices\<close> in call order and \<open>n\<close> counts the calls made so far.
\<close>

fun first_pass ::
  "(nat \<Rightarrow> choice) \<Rightarrow> nat \<Rightarrow> patient list \<Rightarrow> ed_state \<Rightarrow> patient list \<times> patient list \<times> ed_state"
where
  "first_pass draws n [] s = ([], [], s)"
| "first_pass draws n (patient # rest) s =
     (if terminal patient then
        (case first_pass draws n rest (remove_patient s (patient_id patient)) of
           (patient_list, removed_patients, s') \<Rightarrow>
             (patient # patient_list, patient # removed_patients, s'))
      else
        (case first_pass draws (Suc n) rest s of
           (patient_list, removed_patients, s') \<Rightarrow>
             (progress_patient_phase (draws n) patient # patient_list, removed_patients, s')))"

text \<open>\<^verbatim>\<open>{i: 1 for i in range(1, 6)}\<close>\<close>

definition initial_category_positions :: "int \<rightharpoonup> int" where
  "initial_category_positions = [1 \<mapsto> 1, 2 \<mapsto> 1, 3 \<mapsto> 1, 4 \<mapsto> 1, 5 \<mapsto> 1]"

text \<open>
  The numbering loop, which the source writes three times with the same body (lines
  96--104 for the survivors, 107--115 for the replacements, 163--172 for the
  bootstrap population): give the patient \<^verbatim>\<open>global_pos\<close> and the counter of its
  category, advance both, store the patient. A category outside the dict raises
  \<^verbatim>\<open>KeyError\<close>. The function returns the store, the patients as numbered, and the
  two counters.
\<close>

fun assign_positions ::
  "patient list \<Rightarrow> int \<Rightarrow> (int \<rightharpoonup> int) \<Rightarrow> ed_state \<Rightarrow>
     ed_state \<times> (error + patient list \<times> int \<times> (int \<rightharpoonup> int))"
where
  "assign_positions [] global_pos category_positions s =
     (s, Inr ([], global_pos, category_positions))"
| "assign_positions (patient # rest) global_pos category_positions s =
     (case category_positions (triage_category patient) of
        None \<Rightarrow> (s, Inl KeyError)
      | Some c \<Rightarrow>
          (let numbered = patient\<lparr>queue_position := \<lparr>qp_global = global_pos, qp_category = c\<rparr>\<rparr> in
           case assign_positions rest (global_pos + 1)
                  (category_positions(triage_category patient \<mapsto> c + 1))
                  (add_patient s numbered) of
             (s', Inl e) \<Rightarrow> (s', Inl e)
           | (s', Inr (others, counters)) \<Rightarrow> (s', Inr (numbered # others, counters))))"

text \<open>
  \<^verbatim>\<open>patient not in removed_patients\<close>: the patients of \<^verbatim>\<open>patient_list\<close> are the
  values of a dict keyed by their ids, so two of them are the same object exactly
  when they have the same id.
\<close>

definition not_removed :: "patient list \<Rightarrow> patient \<Rightarrow> bool" where
  "not_removed removed_patients patient \<longleftrightarrow>
     patient_id patient \<notin> set (map patient_id removed_patients)"

text \<open>
  Lines 92--115, \<^verbatim>\<open>if removed_patients:\<close>. \<open>gen\<close> enumerates the results of
  \<^verbatim>\<open>generate_mock_patient()\<close> in call order. The locals \<^verbatim>\<open>global_pos\<close> and
  \<^verbatim>\<open>category_positions\<close> are bound only inside this branch: the result \<open>None\<close>
  stands for the unbound locals, \<open>Some\<close> for their values at the end of the branch.
\<close>

definition second_pass ::
  "(nat \<Rightarrow> patient) \<Rightarrow> patient list \<Rightarrow> patient list \<Rightarrow> ed_state \<Rightarrow>
     ed_state \<times> (error + (int \<times> (int \<rightharpoonup> int)) option)"
where
  "second_pass gen patient_list removed_patients s =
     (if removed_patients \<noteq> [] then
        (case assign_positions (filter (not_removed removed_patients) patient_list)
                1 initial_category_positions s of
           (s', Inl e) \<Rightarrow> (s', Inl e)
         | (s', Inr (_, global_pos, category_positions)) \<Rightarrow>
             (case assign_positions (map gen [0..<length removed_patients])
                     global_pos category_positions s' of
                (s'', Inl e) \<Rightarrow> (s'', Inl e)
              | (s'', Inr (_, counters)) \<Rightarrow> (s'', Inr (Some counters))))
      else (s, Inr None))"

text \<open>
  Lines 118--124. \<open>population\<close> is \<^verbatim>\<open>len(patients)\<close>, the size of the dict read at
  the start of the pass; \<open>grow\<close> is the outcome of \<^verbatim>\<open>random.random() < 0.3\<close>;
  \<open>new_patient\<close> is the patient \<^verbatim>\<open>generate_mock_patient()\<close> returns. Reading an
  unbound local raises \<^verbatim>\<open>UnboundLocalError\<close>.
\<close>

definition grow_population ::
  "nat \<Rightarrow> bool \<Rightarrow> patient \<Rightarrow> (int \<times> (int \<rightharpoonup> int)) option \<Rightarrow> ed_state \<Rightarrow>
     ed_state \<times> error option"
where
  "grow_population population grow new_patient counters s =
     (if population < 30 \<and> grow then
        (case counters of
           None \<Rightarrow> (s, Some UnboundLocalError)
         | Some (global_pos, category_positions) \<Rightarrow>
             (case category_positions (triage_category new_patient) of
                None \<Rightarrow> (s, Some KeyError)
              | Some c \<Rightarrow>
                  (add_patient s
                     (new_patient\<lparr>queue_position :=
                        \<lparr>qp_global = global_pos, qp_category = c\<rparr>\<rparr>), None)))
      else (s, None))"

text \<open>
  One advancement pass. \<open>current_time\<close> is the reading of \<^verbatim>\<open>datetime.now()\<close>.
  The patient generated for the growth branch is the one after the
  \<^verbatim>\<open>removed_count\<close> replacements.
\<close>

definition update_patients ::
  "int \<Rightarrow> (nat \<Rightarrow> choice) \<Rightarrow> (nat \<Rightarrow> patient) \<Rightarrow> bool \<Rightarrow> ed_state \<Rightarrow> ed_state \<times> error option"
where
  "update_patients current_time draws gen grow s0 =
     (let patients_dict = get_patients s0;
          s1 = s0\<lparr>last_update := Some current_time\<rparr>;
          sorted_list = sort_key canonical_key (map snd patients_dict)
      in case first_pass draws 0 sorted_list s1 of
        (patient_list, removed_patients, s2) \<Rightarrow>
          (case second_pass gen patient_list removed_patients s2 of
             (s3, Inl e) \<Rightarrow> (s3, Some e)
           | (s3, Inr counters) \<Rightarrow>
               grow_population (length patients_dict) grow (gen (length removed_patients))
                 counters s3))"

subsection \<open>\<^verbatim>\<open>get_queue\<close>\<close>

text \<open>
  \<^verbatim>\<open>int((current_time - last_update).total_seconds() / 60)\<close>: \<^verbatim>\<open>int\<close> truncates
  towards zero; \<^verbatim>\<open>//\<close> rounds down, as \<open>div\<close> on \<open>int\<close> does. The quotient is exact
  here, where the source divides floats: the two can differ only when the rounding
  of the float quotient crosses a whole minute, which takes a span of centuries.
\<close>

definition minutes_passed :: "int \<Rightarrow> int \<Rightarrow> int" where
  "minutes_passed current_time previous =
     (let d = current_time - previous in
      if 0 \<le> d then d div 60000000 else - ((- d) div 60000000))"

definition updates_needed :: "int \<Rightarrow> int \<Rightarrow> int" where
  "updates_needed current_time previous = minutes_passed current_time previous div 15"

text \<open>
  The values an attribute of a patient can have, as far as \<^verbatim>\<open>list.sort\<close> tells them
  apart: numbers and strings are ordered among themselves, and \<^verbatim>\<open><\<close> on anything
  else (dicts, bound methods) or across kinds raises \<^verbatim>\<open>TypeError\<close>.
\<close>

datatype pyval = PyInt int | PyStr string | PyDict | PyMethod

fun py_lt :: "pyval \<Rightarrow> pyval \<Rightarrow> error + bool" where
  "py_lt (PyInt a) (PyInt b) = Inr (a < b)"
| "py_lt (PyStr a) (PyStr b) = Inr (a < b)"
| "py_lt _ _ = Inl TypeError"

text \<open>
  \<^verbatim>\<open>getattr(p, sort)\<close>. The attribute table of the class \<^verbatim>\<open>Patient\<close> is a
  parameter: a name outside the table raises \<^verbatim>\<open>AttributeError\<close>.
\<close>

type_synonym attribute_table = "string \<rightharpoonup> (patient \<Rightarrow> pyval)"

definition getattr :: "attribute_table \<Rightarrow> patient \<Rightarrow> string \<Rightarrow> error + pyval" where
  "getattr attrs p name = (case attrs name of None \<Rightarrow> Inl AttributeError | Some f \<Rightarrow> Inr (f p))"

text \<open>
  Modelled from the spec: the class \<^verbatim>\<open>Patient\<close> (\<^verbatim>\<open>patients.py\<close>) is not part of
  the sources. The table holds the attributes \<^verbatim>\<open>app.py\<close> uses: the fields above,
  the derived \<^verbatim>\<open>time_elapsed\<close> (now minus arrival time, in the spec's data model)
  and the method \<^verbatim>\<open>serialize\<close>. \<^verbatim>\<open>status\<close> is subscripted as a dict and
  \<^verbatim>\<open>queue_position\<close> is assigned a dict by \<^verbatim>\<open>app.py\<close> itself. The attributes every
  Python object has besides are left out.
\<close>

definition time_elapsed :: "int \<Rightarrow> patient \<Rightarrow> int" where
  "time_elapsed now p = now - arrival_time p"

definition Patient_attrs :: "int \<Rightarrow> attribute_table" where
  "Patient_attrs now =
     [''id'' \<mapsto> (\<lambda>p. PyStr (patient_id p)),
      ''triage_category'' \<mapsto> (\<lambda>p. PyInt (triage_category p)),
      ''arrival_time'' \<mapsto> (\<lambda>p. PyInt (arrival_time p)),
      ''status'' \<mapsto> (\<lambda>p. PyDict),
      ''queue_position'' \<mapsto> (\<lambda>p. PyDict),
      ''time_elapsed'' \<mapsto> (\<lambda>p. PyInt (time_elapsed now p)),
      ''serialize'' \<mapsto> (\<lambda>p. PyMethod)]"

text \<open>
  \<^verbatim>\<open>patients.sort(key=lambda p: getattr(p, sort))\<close>. The keys are computed first, one
  per patient in list order, and the first exception of \<^verbatim>\<open>getattr\<close> leaves the
  sort. Then the list is sorted stably by \<^verbatim>\<open><\<close> on the keys; a comparison that
  raises leaves the sort. The model inserts from the right; which pairs
  \<^verbatim>\<open>list.sort\<close> compares is not modelled, and a list of fewer than two elements is
  sorted without any comparison, as in Python.
\<close>

fun sort_keys :: "(patient \<Rightarrow> error + pyval) \<Rightarrow> patient list \<Rightarrow> error + (pyval \<times> patient) list" where
  "sort_keys key [] = Inr []"
| "sort_keys key (p # ps) =
     (case key p of
        Inl e \<Rightarrow> Inl e
      | Inr k \<Rightarrow> (case sort_keys key ps of Inl e \<Rightarrow> Inl e | Inr kps \<Rightarrow> Inr ((k, p) # kps)))"

fun py_insort :: "pyval \<times> patient \<Rightarrow> (pyval \<times> patient) list \<Rightarrow> error + (pyval \<times> patient) list" where
  "py_insort x [] = Inr [x]"
| "py_insort x (y # ys) =
     (case py_lt (fst y) (fst x) of
        Inl e \<Rightarrow> Inl e
      | Inr True \<Rightarrow> (case py_insort x ys of Inl e \<Rightarrow> Inl e | Inr zs \<Rightarrow> Inr (y # zs))
      | Inr False \<Rightarrow> Inr (x # y # ys))"

fun py_sort :: "(pyval \<times> patient) list \<Rightarrow> error + (pyval \<times> patient) list" where
  "py_sort [] = Inr []"
| "py_sort (x # xs) = (case py_sort xs of Inl e \<Rightarrow> Inl e | Inr ys \<Rightarrow> py_insort x ys)"

definition sort_by_attr :: "attribute_table \<Rightarrow> string \<Rightarrow> patient list \<Rightarrow> error + patient list" where
  "sort_by_attr attrs sort_name ps =
     (case sort_keys (\<lambda>p. getattr attrs p sort_name) ps of
        Inl e \<Rightarrow> Inl e
      | Inr kps \<Rightarrow> (case py_sort kps of Inl e \<Rightarrow> Inl e | Inr sorted_kps \<Rightarrow> Inr (map snd sorted_kps)))"

text \<open>The JSON body of the response; \<^verbatim>\<open>serialize\<close> is the identity here.\<close>

record response =
  waitingCount :: nat
  longestWaitTime :: int
  queue :: "patient list"

definition make_response :: "int \<Rightarrow> patient list \<Rightarrow> response" where
  "make_response now ps =
     \<lparr>waitingCount = length ps,
      longestWaitTime = (if ps = [] then 0 else Max (set (map (time_elapsed now) ps))),
      queue = ps\<rparr>"

text \<open>
  What the environment decides during one request: the reading of
  \<^verbatim>\<open>datetime.now()\<close> in \<^verbatim>\<open>get_queue\<close> and the one in \<^verbatim>\<open>update_patients\<close>, the
  random draws of the pass, the patients \<^verbatim>\<open>generate_mock_patient()\<close> returns
  to the pass, and those it returns to \<^verbatim>\<open>generate_mock_patients()\<close> when the store
  is empty.
\<close>

record environment =
  request_time :: int
  pass_time :: int
  pass_draws :: "nat \<Rightarrow> choice"
  pass_grow :: bool
  pass_generated :: "nat \<Rightarrow> patient"
  mock_generated :: "nat \<Rightarrow> patient"

definition generate_mock_patients :: "(nat \<Rightarrow> patient) \<Rightarrow> nat \<Rightarrow> patient list" where
  "generate_mock_patients gen count = map gen [0..<count]"

text \<open>
  Lines 149--172: read the population; if it is empty, generate 25 patients, sort,
  number and store them. The result is the store and the list \<^verbatim>\<open>patients\<close> the
  request goes on with: the stored patients in scan order, or the generated ones
  as numbered.
\<close>

definition load_population :: "environment \<Rightarrow> ed_state \<Rightarrow> ed_state \<times> (error + patient list)" where
  "load_population env s =
     (let stored = map snd (get_patients s) in
      if stored = [] then
        (case assign_positions
                (sort_key canonical_key (generate_mock_patients (mock_generated env) 25))
                1 initial_category_positions s of
           (s', Inl e) \<Rightarrow> (s', Inl e)
         | (s', Inr (numbered, _)) \<Rightarrow> (s', Inr numbered))
      else (s, Inr stored))"

text \<open>
  Lines 149--182: load the population, sort the list by the requested attribute
  (default \<^verbatim>\<open>arrival_time\<close>) and build the response.
\<close>

definition serve_queue ::
  "environment \<Rightarrow> attribute_table \<Rightarrow> string option \<Rightarrow> ed_state \<Rightarrow> ed_state \<times> (error + response)"
where
  "serve_queue env attrs sort_arg s =
     (case load_population env s of
        (s', Inl e) \<Rightarrow> (s', Inl e)
      | (s', Inr ps) \<Rightarrow>
          (case sort_by_attr attrs (case sort_arg of None \<Rightarrow> ''arrival_time'' | Some a \<Rightarrow> a) ps of
             Inl e \<Rightarrow> (s', Inl e)
           | Inr sorted_ps \<Rightarrow> (s', Inr (make_response (request_time env) sorted_ps))))"

text \<open>
  Lines 133--147, the scheduler: with a stored timestamp, run one pass and then
  overwrite the timestamp with the time of the request if \<^verbatim>\<open>updates_needed > 0\<close>;
  without one, store the time of the request. An exception of the pass ends the
  request.
\<close>

definition scheduler :: "environment \<Rightarrow> ed_state \<Rightarrow> ed_state \<times> error option" where
  "scheduler env s =
     (let current_time = request_time env in
      case last_update s of
        Some previous \<Rightarrow>
          (case update_patients (pass_time env) (pass_draws env) (pass_generated env) (pass_grow env) s of
             (s1, Some e) \<Rightarrow> (s1, Some e)
           | (s1, None) \<Rightarrow>
               (if updates_needed current_time previous > 0
                then s1\<lparr>last_update := Some current_time\<rparr> else s1, None))
      | None \<Rightarrow> (s\<lparr>last_update := Some current_time\<rparr>, None))"

definition get_queue ::
  "environment \<Rightarrow> attribute_table \<Rightarrow> string option \<Rightarrow> ed_state \<Rightarrow> ed_state \<times> (error + response)"
where
  "get_queue env attrs sort_arg s =
     (case scheduler env s of
        (s1, Some e) \<Rightarrow> (s1, Inl e)
      | (s1, None) \<Rightarrow> serve_queue env attrs sort_arg s1)"


subsection \<open>Auxiliary definitions for the statements\<close>

text \<open>
  The patient stored under an id, and the well-formed stores: those that
  \<^verbatim>\<open>add_patient\<close> builds, where every patient is stored under its own id and no id
  occurs twice.
\<close>

definition stored :: "ed_state \<Rightarrow> string \<rightharpoonup> patient" where
  "stored s = map_of (patients s)"

definition wf_store :: "ed_state \<Rightarrow> bool" where
  "wf_store s \<longleftrightarrow>
     distinct (map fst (patients s)) \<and> (\<forall>kv \<in> set (patients s). patient_id (snd kv) = fst kv)"

text \<open>The phases from \<^verbatim>\<open>investigations_pending\<close> on.\<close>

definition reached_investigations :: "patient \<Rightarrow> bool" where
  "reached_investigations p \<longleftrightarrow>
     current_phase (status p) \<in>
       set [''investigations_pending'', ''treatment'', ''admitted'', ''discharged'']"

text \<open>
  For a pass on the store \<open>s\<close>: the patients that are not terminal when the pass
  starts, in the order of the sorted list; the number of terminal ones; and the
  order in which the pass numbers patients, the survivors followed by as many
  generated patients as were removed.
\<close>

definition survivors :: "ed_state \<Rightarrow> patient list" where
  "survivors s = filter (\<lambda>p. \<not> terminal p) (sort_key canonical_key (map snd (patients s)))"

definition removed_count :: "ed_state \<Rightarrow> nat" where
  "removed_count s = length (filter terminal (map snd (patients s)))"

definition numbering_order :: "(nat \<Rightarrow> patient) \<Rightarrow> ed_state \<Rightarrow> patient list" where
  "numbering_order gen s = survivors s @ map gen [0..<removed_count s]"

text \<open>The list of the patient generated by the growth branch, empty if it does not fire.\<close>

definition growth_patients :: "(nat \<Rightarrow> patient) \<Rightarrow> nat \<Rightarrow> nat \<Rightarrow> bool \<Rightarrow> patient list" where
  "growth_patients gen population removed grow =
     (if population < 30 \<and> grow then [gen removed] else [])"

text \<open>Concrete patients, stores and environments on which the theorems are instantiated.\<close>

definition example_patient :: "string \<Rightarrow> int \<Rightarrow> int \<Rightarrow> string \<Rightarrow> patient" where
  "example_patient pid category arrival phase =
     \<lparr>patient_id = pid, triage_category = category, arrival_time = arrival,
      status = \<lparr>current_phase = phase, investigations = None\<rparr>,
      queue_position = \<lparr>qp_global = 0, qp_category = 0\<rparr>\<rparr>"

definition example_investigated :: patient where
  "example_investigated =
     \<lparr>patient_id = ''p1'', triage_category = 3, arrival_time = 0,
      status = \<lparr>current_phase = ''investigations_pending'',
                investigations = Some \<lparr>labs = ''ordered'', imaging = ''ordered''\<rparr>\<rparr>,
      queue_position = \<lparr>qp_global = 1, qp_category = 1\<rparr>\<rparr>"

definition example_store :: ed_state where
  "example_store =
     \<lparr>patients = [(''a'', example_patient ''a'' 2 10 ''registered'')], last_update = Some 0\<rparr>"

definition example_gen :: "nat \<Rightarrow> patient" where
  "example_gen n = example_patient (''new'' @ replicate n CHR ''+'') 2 100 ''registered''"

definition example_env :: environment where
  "example_env =
     \<lparr>request_time = 300000000, pass_time = 300000017,
      pass_draws = (\<lambda>n. ChoseDischarged), pass_grow = False,
      pass_generated = example_gen,
      mock_generated = (\<lambda>n. example_patient (''mock'' @ replicate n CHR ''+'') (1 + int n mod 5) (int n) ''registered'')\<rparr>"

definition example_pair :: ed_state where
  "example_pair =
     \<lparr>patients = [(''a'', example_patient ''a'' 3 10 ''treatment''),
                  (''b'', example_patient ''b'' 1 20 ''admitted'')],
      last_update = None\<rparr>"

definition example_empty :: ed_state where
  "example_empty = \<lparr>patients = [], last_update = None\<rparr>"


section \<open>Auxiliary lemmas\<close>

subsection \<open>The state machine, phase by phase\<close>

lemma phase_transitions_simps:
  "phase_transitions d ''registered'' = Some ''triaged''"
  "phase_transitions d ''triaged'' = Some ''investigations_pending''"
  "phase_transitions d ''investigations_pending'' = Some ''treatment''"
  "phase_transitions d ''treatment'' = Some (choice_phase d)"
  "phase_transitions d ''admitted'' = None"
  "phase_transitions d ''discharged'' = None"
  by (simp_all add: phase_transitions_def)

lemma choice_phase_cases: "choice_phase d = ''admitted'' \<or> choice_phase d = ''discharged''"
  by (cases d) simp_all

lemma choice_phase_neq: "choice_phase d \<noteq> ''investigations_pending''"
  by (cases d) simp_all

lemma progress_registered:
  "current_phase (status p) = ''registered'' \<Longrightarrow>
   progress_patient_phase d p = p\<lparr>status := (status p)\<lparr>current_phase := ''triaged''\<rparr>\<rparr>"
  by (simp add: progress_patient_phase_def phase_transitions_simps Let_def)

lemma progress_triaged:
  "current_phase (status p) = ''triaged'' \<Longrightarrow>
   progress_patient_phase d p =
     p\<lparr>status := \<lparr>current_phase = ''investigations_pending'',
                    investigations = Some \<lparr>labs = ''ordered'', imaging = ''ordered''\<rparr>\<rparr>\<rparr>"
  by (simp add: progress_patient_phase_def phase_transitions_simps Let_def
      InvestigationState_ORDERED_def)

lemma progress_investigations_pending:
  "current_phase (status p) = ''investigations_pending'' \<Longrightarrow>
   progress_patient_phase d p =
     p\<lparr>status := \<lparr>current_phase = ''treatment'',
                    investigations =
                      map_option (\<lambda>tests. \<lparr>labs = progress_test (labs tests),
                                            imaging = progress_test (imaging tests)\<rparr>)
                        (investigations (status p))\<rparr>\<rparr>"
  by (simp add: progress_patient_phase_def phase_transitions_simps Let_def split: option.split)

lemma progress_treatment:
  "current_phase (status p) = ''treatment'' \<Longrightarrow>
   progress_patient_phase d p = p\<lparr>status := (status p)\<lparr>current_phase := choice_phase d\<rparr>\<rparr>"
  by (simp add: progress_patient_phase_def phase_transitions_simps Let_def choice_phase_neq)

lemma progress_other:
  "current_phase (status p) \<notin> {''registered'', ''triaged'', ''investigations_pending'', ''treatment''} \<Longrightarrow>
   progress_patient_phase d p = p"
  by (simp add: progress_patient_phase_def phase_transitions_def Let_def)

lemma progress_has_investigations:
  "investigations (status (progress_patient_phase d p)) \<noteq> None \<longleftrightarrow>
     investigations (status p) \<noteq> None \<or> current_phase (status p) = ''triaged''"
proof -
  consider "current_phase (status p) = ''registered''" | "current_phase (status p) = ''triaged''"
    | "current_phase (status p) = ''investigations_pending''" | "current_phase (status p) = ''treatment''"
    | "current_phase (status p) \<notin> {''registered'', ''triaged'', ''investigations_pending'', ''treatment''}"
    by auto
  then show ?thesis
    by cases (simp_all add: progress_registered progress_triaged progress_investigations_pending
        progress_treatment progress_other)
qed

lemma progress_reached:
  "reached_investigations (progress_patient_phase d p) \<longleftrightarrow>
     reached_investigations p \<or> current_phase (status p) = ''triaged''"
proof -
  consider "current_phase (status p) = ''registered''" | "current_phase (status p) = ''triaged''"
    | "current_phase (status p) = ''investigations_pending''" | "current_phase (status p) = ''treatment''"
    | "current_phase (status p) \<notin> {''registered'', ''triaged'', ''investigations_pending'', ''treatment''}"
    by auto
  then show ?thesis
    using choice_phase_cases [of d]
    by cases (auto simp add: progress_registered progress_triaged progress_investigations_pending
        progress_treatment progress_other reached_investigations_def)
qed

subsection \<open>The store\<close>

lemma last_update_add_patient [simp]: "last_update (add_patient s p) = last_update s"
  by (simp add: add_patient_def)

lemma last_update_remove_patient [simp]: "last_update (remove_patient s k) = last_update s"
  by (simp add: remove_patient_def)

lemma patients_add_patient [simp]:
  "patients (add_patient s p) = AList.update (patient_id p) p (patients s)"
  by (simp add: add_patient_def)

lemma patients_remove_patient [simp]:
  "patients (remove_patient s k) = AList.delete k (patients s)"
  by (simp add: remove_patient_def)

lemma get_patients_values_aux:
  "set (map snd (foldl (\<lambda>d kv. AList.update (patient_id (snd kv)) (snd kv) d) acc kvs))
     \<subseteq> set (map snd acc) \<union> set (map snd kvs)"
proof (induction kvs arbitrary: acc)
  case Nil
  then show ?case by simp
next
  case (Cons kv kvs)
  have "set (map snd (AList.update (patient_id (snd kv)) (snd kv) acc))
      \<subseteq> insert (snd kv) (set (map snd acc))"
    by (induction acc) auto
  with Cons.IH [of "AList.update (patient_id (snd kv)) (snd kv) acc"] show ?case
    by auto
qed

lemma get_patients_values: "set (map snd (get_patients s)) \<subseteq> set (map snd (patients s))"
  using get_patients_values_aux [of "[]" "patients s"] by (simp add: get_patients_def)

lemma get_patients_length_aux:
  "length (foldl (\<lambda>d kv. AList.update (patient_id (snd kv)) (snd kv) d) acc kvs) \<ge> length acc \<and>
   (kvs \<noteq> [] \<longrightarrow> foldl (\<lambda>d kv. AList.update (patient_id (snd kv)) (snd kv) d) acc kvs \<noteq> [])"
proof (induction kvs arbitrary: acc)
  case Nil
  then show ?case by simp
next
  case (Cons kv kvs)
  have l: "length acc \<le> length (AList.update (patient_id (snd kv)) (snd kv) acc)"
    by (induction acc) auto
  have n: "AList.update (patient_id (snd kv)) (snd kv) acc \<noteq> []"
    by (cases acc) auto
  from Cons.IH [of "AList.update (patient_id (snd kv)) (snd kv) acc"] l n show ?case
    by (cases kvs) (auto simp del: AList.update.simps)
qed

lemma get_patients_empty_iff: "get_patients s = [] \<longleftrightarrow> patients s = []"
  using get_patients_length_aux [of "[]" "patients s"] by (auto simp add: get_patients_def)

subsection \<open>The iterations of the pass\<close>

text \<open>
  The first loop removes exactly the patients that are terminal when it reaches
  them and returns them as \<^verbatim>\<open>removed_patients\<close>; no loop touches
  \<^verbatim>\<open>last_update\<close>.
\<close>

lemma first_pass_removed:
  "fst (snd (first_pass draws n ps s)) = filter terminal ps"
  by (induction ps arbitrary: n s) (simp_all add: case_prod_beta)

lemma first_pass_store:
  "snd (snd (first_pass draws n ps s)) =
     foldl remove_patient s (map patient_id (filter terminal ps))"
  by (induction ps arbitrary: n s) (simp_all add: case_prod_beta)

lemma first_pass_length: "length (fst (first_pass draws n ps s)) = length ps"
  by (induction ps arbitrary: n s) (simp_all add: case_prod_beta)

lemma assign_positions_Cons_store:
  "fst (assign_positions (p # ps) g c s) =
     (case c (triage_category p) of
        None \<Rightarrow> s
      | Some x \<Rightarrow>
          fst (assign_positions ps (g + 1) (c(triage_category p \<mapsto> x + 1))
                 (add_patient s (p\<lparr>queue_position := \<lparr>qp_global = g, qp_category = x\<rparr>\<rparr>))))"
  by (simp add: Let_def split: option.split prod.split sum.split)

lemma assign_positions_last_update:
  "last_update (fst (assign_positions ps g c s)) = last_update s"
proof (induction ps arbitrary: g c s)
  case Nil
  then show ?case by simp
next
  case (Cons p ps)
  show ?case
    by (simp only: assign_positions_Cons_store) (simp add: Cons.IH split: option.split)
qed

lemma foldl_remove_last_update:
  "last_update (foldl remove_patient s ks) = last_update s"
  by (induction ks arbitrary: s) auto

lemma second_pass_last_update:
  "last_update (fst (second_pass gen pl rm s)) = last_update s"
proof (cases "rm = []")
  case True
  then show ?thesis by (simp add: second_pass_def)
next
  case False
  obtain s' r where a: "assign_positions (filter (not_removed rm) pl) 1 initial_category_positions s = (s', r)"
    by (cases "assign_positions (filter (not_removed rm) pl) 1 initial_category_positions s") auto
  have s': "last_update s' = last_update s"
    using assign_positions_last_update [of "filter (not_removed rm) pl" 1 initial_category_positions s]
    by (simp add: a)
  show ?thesis
  proof (cases r)
    case (Inl e)
    then show ?thesis using False a s' by (simp add: second_pass_def)
  next
    case (Inr t)
    obtain ws g c where t: "t = (ws, g, c)" by (cases t) auto
    obtain s'' r' where b: "assign_positions (map gen [0..<length rm]) g c s' = (s'', r')"
      by (cases "assign_positions (map gen [0..<length rm]) g c s'") auto
    have "last_update s'' = last_update s'"
      using assign_positions_last_update [of "map gen [0..<length rm]" g c s'] by (simp add: b)
    then show ?thesis using False a s' Inr t b
      by (simp add: second_pass_def split: sum.split prod.split)
  qed
qed

lemma grow_population_last_update:
  "last_update (fst (grow_population n grow newp counters s)) = last_update s"
  by (simp add: grow_population_def split: option.split prod.split)

lemma update_patients_last_update:
  "last_update (fst (update_patients now draws gen grow s)) = Some now"
proof -
  let ?sorted = "sort_key canonical_key (map snd (get_patients s))"
  obtain pl rm s2 where fp: "first_pass draws 0 ?sorted (s\<lparr>last_update := Some now\<rparr>) = (pl, rm, s2)"
    by (cases "first_pass draws 0 ?sorted (s\<lparr>last_update := Some now\<rparr>)") auto
  have s2: "last_update s2 = Some now"
    using first_pass_store [of draws 0 ?sorted "s\<lparr>last_update := Some now\<rparr>"]
    by (simp add: fp foldl_remove_last_update)
  obtain s3 r where sp: "second_pass gen pl rm s2 = (s3, r)"
    by (cases "second_pass gen pl rm s2") auto
  have s3: "last_update s3 = Some now"
    using second_pass_last_update [of gen pl rm s2] s2 by (simp add: sp)
  show ?thesis
    using s3 by (simp add: update_patients_def Let_def fp sp grow_population_last_update split: sum.split)
qed

subsection \<open>A pass that removes nobody\<close>

lemma second_pass_no_removal: "second_pass gen pl [] s = (s, Inr None)"
  by (simp add: second_pass_def)

lemma first_pass_no_removal:
  assumes "filter terminal ps = []"
  shows "\<exists>pl. first_pass draws n ps s = (pl, [], s)"
proof -
  obtain pl rm s' where fp: "first_pass draws n ps s = (pl, rm, s')"
    by (cases "first_pass draws n ps s") auto
  have "rm = []" using first_pass_removed [of draws n ps s] assms by (simp add: fp)
  moreover have "s' = s" using first_pass_store [of draws n ps s] assms by (simp add: fp)
  ultimately show ?thesis using fp by simp
qed

lemma update_patients_no_removal:
  assumes "filter terminal (map snd (get_patients s)) = []"
  shows "update_patients now draws gen grow s =
           (s\<lparr>last_update := Some now\<rparr>,
            if length (get_patients s) < 30 \<and> grow then Some UnboundLocalError else None)"
proof -
  let ?sorted = "sort_key canonical_key (map snd (get_patients s))"
  have "filter terminal ?sorted = []"
    using assms by (simp add: filter_empty_conv)
  then obtain pl where fp: "first_pass draws 0 ?sorted (s\<lparr>last_update := Some now\<rparr>) = (pl, [], s\<lparr>last_update := Some now\<rparr>)"
    using first_pass_no_removal by blast
  show ?thesis
    by (simp add: update_patients_def Let_def fp second_pass_no_removal grow_population_def)
qed

lemma example_store_terminal: "\<forall>p \<in> set (map snd (patients example_store)). \<not> terminal p"
  by (simp add: example_store_def example_patient_def terminal_def)

subsection \<open>The queue request\<close>

lemma serve_queue_last_update:
  "last_update (fst (serve_queue env attrs sort_arg s)) = last_update s"
proof -
  let ?a = "assign_positions (sort_key canonical_key (generate_mock_patients (mock_generated env) 25))
              1 initial_category_positions s"
  obtain s' r where a: "?a = (s', r)" by (cases ?a) auto
  have "last_update s' = last_update s"
    using assign_positions_last_update
      [of "sort_key canonical_key (generate_mock_patients (mock_generated env) 25)" 1 initial_category_positions s]
    by (simp add: a)
  then show ?thesis
    by (simp add: serve_queue_def load_population_def Let_def a split: sum.split prod.split)
qed

lemma serve_queue_nonempty:
  "patients s \<noteq> [] \<Longrightarrow> fst (serve_queue env attrs sort_arg s) = s"
  by (simp add: serve_queue_def load_population_def Let_def get_patients_empty_iff split: sum.split)

lemma get_patients_last_update_irrelevant [simp]:
  "get_patients (s\<lparr>last_update := t\<rparr>) = get_patients s"
  by (simp add: get_patients_def)

lemma updates_needed_pos_iff:
  "0 < updates_needed current_time previous \<longleftrightarrow> 900000000 \<le> current_time - previous"
  by (auto simp add: updates_needed_def minutes_passed_def Let_def)

lemma get_queue_last_update:
  assumes "last_update s = Some previous"
  shows "last_update (fst (get_queue env attrs sort_arg s)) =
     Some (if snd (update_patients (pass_time env) (pass_draws env) (pass_generated env) (pass_grow env) s) = None
              \<and> 0 < updates_needed (request_time env) previous
           then request_time env else pass_time env)"
proof -
  let ?u = "update_patients (pass_time env) (pass_draws env) (pass_generated env) (pass_grow env) s"
  obtain s1 e where u: "?u = (s1, e)" by (cases ?u) auto
  have s1: "last_update s1 = Some (pass_time env)"
    using update_patients_last_update [of "pass_time env" "pass_draws env" "pass_generated env" "pass_grow env" s]
    by (simp add: u)
  show ?thesis
    using assms s1
    by (cases e) (simp_all add: get_queue_def scheduler_def Let_def u serve_queue_last_update)
qed

lemma example_pass:
  "update_patients (pass_time example_env) (pass_draws example_env) (pass_generated example_env)
     (pass_grow example_env) example_store = (example_store\<lparr>last_update := Some 300000017\<rparr>, None)"
proof -
  have g: "get_patients example_store = patients example_store"
    by (simp add: get_patients_def example_store_def example_patient_def)
  have "filter terminal (map snd (patients example_store)) = []"
    by (simp add: example_store_def example_patient_def terminal_def)
  then have t: "filter terminal (map snd (get_patients example_store)) = []"
    by (simp only: g)
  from update_patients_no_removal [OF t, of "pass_time example_env" "pass_draws example_env"
      "pass_generated example_env" "pass_grow example_env"]
  show ?thesis by (simp add: example_env_def)
qed

subsection \<open>Sorting by an attribute\<close>

text \<open>
  On keys of one ordered kind the sort of the model is the stable insertion sort
  \<open>sort_key\<close> of the library; on keys that cannot be compared it raises as soon
  as there are two of them.
\<close>

lemma sort_keys_missing:
  "attrs name = None \<Longrightarrow> ps \<noteq> [] \<Longrightarrow>
   sort_keys (\<lambda>p. getattr attrs p name) ps = Inl AttributeError"
  by (cases ps) (simp_all add: getattr_def)

lemma sort_keys_present:
  "attrs name = Some f \<Longrightarrow>
   sort_keys (\<lambda>p. getattr attrs p name) ps = Inr (map (\<lambda>p. (f p, p)) ps)"
  by (induction ps) (simp_all add: getattr_def)

lemma py_insort_ordered:
  fixes k :: "patient \<Rightarrow> 'k::linorder"
  assumes "\<And>a b. py_lt (e a) (e b) = Inr (a < b)"
  shows "py_insort (e (k x), x) (map (\<lambda>p. (e (k p), p)) ys) =
           Inr (map (\<lambda>p. (e (k p), p)) (insort_key k x ys))"
proof (induction ys)
  case Nil
  then show ?case by simp
next
  case (Cons y ys)
  show ?case
  proof (cases "k y < k x")
    case True
    then have "\<not> k x \<le> k y" by simp
    with True Cons.IH show ?thesis by (simp add: assms)
  next
    case False
    then have "k x \<le> k y" by simp
    with False show ?thesis by (simp add: assms)
  qed
qed

lemma py_sort_ordered:
  fixes k :: "patient \<Rightarrow> 'k::linorder"
  assumes "\<And>a b. py_lt (e a) (e b) = Inr (a < b)"
  shows "py_sort (map (\<lambda>p. (e (k p), p)) ps) = Inr (map (\<lambda>p. (e (k p), p)) (sort_key k ps))"
  by (induction ps) (simp_all add: py_insort_ordered [OF assms])

lemma sort_by_attr_ordered:
  fixes k :: "patient \<Rightarrow> 'k::linorder"
  assumes e: "\<And>a b. py_lt (e a) (e b) = Inr (a < b)"
    and f: "attrs name = Some f"
    and k: "\<forall>p \<in> set ps. f p = e (k p)"
  shows "sort_by_attr attrs name ps = Inr (sort_key k ps)"
proof -
  have m: "map (\<lambda>p. (f p, p)) ps = map (\<lambda>p. (e (k p), p)) ps"
    using k by simp
  have "sort_keys (\<lambda>p. getattr attrs p name) ps = Inr (map (\<lambda>p. (e (k p), p)) ps)"
    by (simp add: sort_keys_present f m)
  then show ?thesis
    by (simp add: sort_by_attr_def py_sort_ordered [OF e] comp_def)
qed

lemma py_sort_unordered:
  assumes "\<forall>x \<in> set kps. \<forall>y \<in> set kps. py_lt (fst x) (fst y) = Inl TypeError"
  shows "py_sort kps = (if length kps \<le> 1 then Inr kps else Inl TypeError)"
  using assms
proof (induction kps)
  case Nil
  then show ?case by simp
next
  case (Cons x xs)
  show ?case
  proof (cases xs)
    case Nil
    then show ?thesis by simp
  next
    case (Cons y ys)
    show ?thesis
    proof (cases ys)
      case Nil
      with Cons Cons.prems show ?thesis by simp
    next
      case (Cons z zs)
      with \<open>xs = y # ys\<close> Cons.IH Cons.prems show ?thesis by simp
    qed
  qed
qed

lemma sort_by_attr_unordered:
  assumes f: "attrs name = Some f"
    and u: "\<forall>p \<in> set ps. f p = PyDict \<or> f p = PyMethod"
    and l: "2 \<le> length ps"
  shows "sort_by_attr attrs name ps = Inl TypeError"
proof -
  let ?kps = "map (\<lambda>p. (f p, p)) ps"
  have "\<forall>x \<in> set ?kps. \<forall>y \<in> set ?kps. py_lt (fst x) (fst y) = Inl TypeError"
    using u by auto
  from py_sort_unordered [OF this] l show ?thesis
    by (simp add: sort_by_attr_def sort_keys_present f)
qed

lemma sort_by_attr_missing:
  "attrs name = None \<Longrightarrow> ps \<noteq> [] \<Longrightarrow> sort_by_attr attrs name ps = Inl AttributeError"
  by (simp add: sort_by_attr_def sort_keys_missing)

lemma serve_queue_stored:
  assumes "patients s \<noteq> []"
  shows "serve_queue env attrs sort_arg s =
           (s, case sort_by_attr attrs (case sort_arg of None \<Rightarrow> ''arrival_time'' | Some a \<Rightarrow> a)
                      (map snd (get_patients s)) of
                 Inl e \<Rightarrow> Inl e
               | Inr sorted_ps \<Rightarrow> Inr (make_response (request_time env) sorted_ps))"
  using assms
  by (simp add: serve_queue_def load_population_def Let_def get_patients_empty_iff split: sum.split)

lemma py_lt_int: "py_lt (PyInt a) (PyInt b) = Inr (a < b)"
  by simp

lemma py_lt_str: "py_lt (PyStr a) (PyStr b) = Inr (a < b)"
  by simp

lemma example_pair_scheduler:
  "scheduler example_env example_pair = (example_pair\<lparr>last_update := Some 300000000\<rparr>, None)"
  by (simp add: scheduler_def example_pair_def example_env_def)

lemma example_pair_stored:
  "map snd (get_patients (example_pair\<lparr>last_update := Some 300000000\<rparr>)) =
     [example_patient ''a'' 3 10 ''treatment'', example_patient ''b'' 1 20 ''admitted'']"
  by (simp add: get_patients_def example_pair_def example_patient_def)

subsection \<open>Lookups in the store and well-formed stores\<close>

lemma stored_add_patient: "stored (add_patient s p) = (stored s)(patient_id p \<mapsto> p)"
  by (simp add: stored_def update_conv')

lemma stored_remove_patient: "stored (remove_patient s k) = (stored s)(k := None)"
  by (simp add: stored_def delete_conv')

lemma stored_foldl_remove:
  "stored (foldl remove_patient s ks) k = (if k \<in> set ks then None else stored s k)"
  by (induction ks arbitrary: s) (auto simp add: stored_remove_patient)

lemma stored_last_update [simp]: "stored (s\<lparr>last_update := t\<rparr>) = stored s"
  by (simp add: stored_def)

lemma update_fresh: "k \<notin> fst ` set al \<Longrightarrow> AList.update k v al = al @ [(k, v)]"
  by (induction al) auto

lemma foldl_update_fresh:
  assumes "distinct (map fst (acc @ kvs))" and "\<forall>kv \<in> set kvs. patient_id (snd kv) = fst kv"
  shows "foldl (\<lambda>d kv. AList.update (patient_id (snd kv)) (snd kv) d) acc kvs = acc @ kvs"
  using assms
proof (induction kvs arbitrary: acc)
  case Nil
  then show ?case by simp
next
  case (Cons kv kvs)
  have k: "patient_id (snd kv) = fst kv" using Cons.prems(2) by simp
  have "fst kv \<notin> fst ` set acc" using Cons.prems(1) by auto
  then have u: "AList.update (patient_id (snd kv)) (snd kv) acc = acc @ [kv]"
    by (simp add: k update_fresh)
  have "distinct (map fst ((acc @ [kv]) @ kvs))" using Cons.prems(1) by simp
  moreover have "\<forall>kv \<in> set kvs. patient_id (snd kv) = fst kv" using Cons.prems(2) by simp
  ultimately show ?case using Cons.IH [of "acc @ [kv]"] by (simp add: u)
qed

lemma wf_store_get_patients: "wf_store s \<Longrightarrow> get_patients s = patients s"
  using foldl_update_fresh [of "[]" "patients s"] by (simp add: wf_store_def get_patients_def)

lemma wf_store_ids: "wf_store s \<Longrightarrow> map patient_id (map snd (patients s)) = map fst (patients s)"
  by (simp add: wf_store_def)

lemma wf_store_distinct_ids: "wf_store s \<Longrightarrow> distinct (map patient_id (map snd (patients s)))"
proof -
  assume w: "wf_store s"
  then have "distinct (map fst (patients s))" by (simp add: wf_store_def)
  then show ?thesis by (simp only: wf_store_ids [OF w])
qed

lemma wf_store_stored:
  "wf_store s \<Longrightarrow> p \<in> set (map snd (patients s)) \<Longrightarrow> stored s (patient_id p) = Some p"
  by (auto simp add: wf_store_def stored_def)

subsection \<open>What the first loop keeps\<close>

text \<open>
  The state machine leaves id, triage category and arrival time alone, so the
  patients the second loop numbers are, by id and by category, the patients that
  were not terminal at the start, in sorted order.
\<close>

lemma progress_patient_id [simp]: "patient_id (progress_patient_phase d p) = patient_id p"
  by (simp add: progress_patient_phase_def Let_def split: option.split)

lemma progress_triage_category [simp]:
  "triage_category (progress_patient_phase d p) = triage_category p"
  by (simp add: progress_patient_phase_def Let_def split: option.split)

lemma progress_arrival_time [simp]: "arrival_time (progress_patient_phase d p) = arrival_time p"
  by (simp add: progress_patient_phase_def Let_def split: option.split)

lemma first_pass_ids:
  "map patient_id (filter (\<lambda>q. patient_id q \<notin> R) (fst (first_pass draws n ps s))) =
     map patient_id (filter (\<lambda>q. patient_id q \<notin> R) ps)"
  by (induction ps arbitrary: n s) (simp_all add: case_prod_beta)

lemma first_pass_categories:
  "map triage_category (filter (\<lambda>q. patient_id q \<notin> R) (fst (first_pass draws n ps s))) =
     map triage_category (filter (\<lambda>q. patient_id q \<notin> R) ps)"
  by (induction ps arbitrary: n s) (simp_all add: case_prod_beta)

lemma not_removed_terminal:
  assumes "distinct (map patient_id ps)"
  shows "filter (\<lambda>q. patient_id q \<notin> set (map patient_id (filter terminal ps))) ps =
           filter (\<lambda>q. \<not> terminal q) ps"
proof (rule filter_cong [OF refl])
  fix q assume q: "q \<in> set ps"
  show "(patient_id q \<notin> set (map patient_id (filter terminal ps))) = (\<not> terminal q)"
  proof
    assume "patient_id q \<notin> set (map patient_id (filter terminal ps))"
    with q show "\<not> terminal q" by auto
  next
    assume nt: "\<not> terminal q"
    show "patient_id q \<notin> set (map patient_id (filter terminal ps))"
    proof
      assume "patient_id q \<in> set (map patient_id (filter terminal ps))"
      then obtain r where r: "r \<in> set ps" "terminal r" "patient_id r = patient_id q" by auto
      from assms r(1) q r(3) have "r = q" by (meson distinct_map inj_onD)
      with r(2) nt show False by simp
    qed
  qed
qed

subsection \<open>The numbering loop\<close>

text \<open>
  A patient whose id is not in the list is left as stored; a stored id stays stored;
  the loop succeeds when every category has a counter; and then the patient at
  index \<open>i\<close> of a list with distinct ids is stored with global position
  \<open>global_pos + i\<close> and with the counter of its category advanced by the number of
  earlier patients of that category. Two runs in a row are one run over the
  concatenation.
\<close>

lemma assign_positions_Cons_result:
  "snd (assign_positions (p # ps) g c s) =
     (case c (triage_category p) of
        None \<Rightarrow> Inl KeyError
      | Some x \<Rightarrow>
          (case snd (assign_positions ps (g + 1) (c(triage_category p \<mapsto> x + 1))
                  (add_patient s (p\<lparr>queue_position := \<lparr>qp_global = g, qp_category = x\<rparr>\<rparr>))) of
             Inl e \<Rightarrow> Inl e
           | Inr r \<Rightarrow>
               Inr (p\<lparr>queue_position := \<lparr>qp_global = g, qp_category = x\<rparr>\<rparr> # fst r, snd r)))"
  by (simp add: Let_def split: option.split prod.split sum.split)

lemma assign_positions_other:
  "k \<notin> patient_id ` set ps \<Longrightarrow> stored (fst (assign_positions ps g c s)) k = stored s k"
proof (induction ps arbitrary: g c s)
  case Nil
  then show ?case by simp
next
  case (Cons p ps)
  then show ?case
    by (simp only: assign_positions_Cons_store)
      (auto simp add: stored_add_patient split: option.split)
qed

lemma assign_positions_keeps:
  "stored s k \<noteq> None \<Longrightarrow> stored (fst (assign_positions ps g c s)) k \<noteq> None"
proof (induction ps arbitrary: g c s)
  case Nil
  then show ?case by simp
next
  case (Cons p ps)
  show ?case
  proof (cases "c (triage_category p)")
    case None
    then show ?thesis using Cons.prems by (simp only: assign_positions_Cons_store) simp
  next
    case (Some x)
    let ?s = "add_patient s (p\<lparr>queue_position := \<lparr>qp_global = g, qp_category = x\<rparr>\<rparr>)"
    have "stored ?s k \<noteq> None" using Cons.prems by (simp add: stored_add_patient)
    from Cons.IH [OF this] Some show ?thesis
      by (simp only: assign_positions_Cons_store) simp
  qed
qed

lemma assign_positions_succeeds:
  "\<forall>p \<in> set ps. c (triage_category p) \<noteq> None \<Longrightarrow> \<exists>r. snd (assign_positions ps g c s) = Inr r"
proof (induction ps arbitrary: g c s)
  case Nil
  then show ?case by simp
next
  case (Cons p ps)
  from Cons.prems obtain x where x: "c (triage_category p) = Some x" by auto
  let ?c = "c(triage_category p \<mapsto> x + 1)"
  let ?s = "add_patient s (p\<lparr>queue_position := \<lparr>qp_global = g, qp_category = x\<rparr>\<rparr>)"
  have "\<forall>q \<in> set ps. ?c (triage_category q) \<noteq> None" using Cons.prems by simp
  from Cons.IH [OF this, of "g + 1" ?s] obtain r where
    "snd (assign_positions ps (g + 1) ?c ?s) = Inr r" by blast
  then show ?case by (simp only: assign_positions_Cons_result) (simp add: x)
qed

lemma assign_positions_stored:
  assumes "\<forall>p \<in> set ps. c (triage_category p) \<noteq> None"
    and "distinct (map patient_id ps)"
    and "i < length ps"
  shows "stored (fst (assign_positions ps g c s)) (patient_id (ps ! i)) =
           Some ((ps ! i)\<lparr>queue_position :=
             \<lparr>qp_global = g + int i,
              qp_category = the (c (triage_category (ps ! i))) +
                int (length (filter (\<lambda>q. triage_category q = triage_category (ps ! i)) (take i ps)))\<rparr>\<rparr>)"
  using assms
proof (induction ps arbitrary: g c s i)
  case Nil
  then show ?case by simp
next
  case (Cons p ps)
  from Cons.prems(1) obtain x where x: "c (triage_category p) = Some x" by auto
  let ?c = "c(triage_category p \<mapsto> x + 1)"
  let ?p = "p\<lparr>queue_position := \<lparr>qp_global = g, qp_category = x\<rparr>\<rparr>"
  let ?s = "add_patient s ?p"
  have st: "fst (assign_positions (p # ps) g c s) = fst (assign_positions ps (g + 1) ?c ?s)"
    by (simp only: assign_positions_Cons_store) (simp add: x)
  show ?case
  proof (cases i)
    case 0
    have "patient_id p \<notin> patient_id ` set ps" using Cons.prems(2) by auto
    then have "stored (fst (assign_positions ps (g + 1) ?c ?s)) (patient_id p) = stored ?s (patient_id p)"
      by (rule assign_positions_other)
    then show ?thesis using 0 x by (simp add: st stored_add_patient del: assign_positions.simps)
  next
    case (Suc j)
    have c': "\<forall>q \<in> set ps. ?c (triage_category q) \<noteq> None" using Cons.prems(1) by simp
    have d: "distinct (map patient_id ps)" using Cons.prems(2) by simp
    have j: "j < length ps" using Cons.prems(3) Suc by simp
    from Cons.prems(1) j obtain y where y: "c (triage_category (ps ! j)) = Some y"
      by (metis nth_mem list.set_intros(2) not_Some_eq)
    note IH = Cons.IH [OF c' d j, of "g + 1" ?s]
    have "stored (fst (assign_positions (p # ps) g c s)) (patient_id ((p # ps) ! i)) =
        stored (fst (assign_positions ps (g + 1) ?c ?s)) (patient_id (ps ! j))"
      by (simp only: st Suc nth_Cons_Suc)
    also note IH
    also have "(ps ! j)\<lparr>queue_position :=
             \<lparr>qp_global = g + 1 + int j,
              qp_category = the (?c (triage_category (ps ! j))) +
                int (length (filter (\<lambda>q. triage_category q = triage_category (ps ! j)) (take j ps)))\<rparr>\<rparr> =
        ((p # ps) ! i)\<lparr>queue_position :=
             \<lparr>qp_global = g + int i,
              qp_category = the (c (triage_category ((p # ps) ! i))) +
                int (length (filter (\<lambda>q. triage_category q = triage_category ((p # ps) ! i))
                  (take i (p # ps))))\<rparr>\<rparr>"
      using x y by (auto simp add: Suc)
    finally show ?thesis by simp
  qed
qed

lemma assign_positions_append:
  "assign_positions (xs @ ys) g c s =
     (case assign_positions xs g c s of
        (s', Inl e) \<Rightarrow> (s', Inl e)
      | (s', Inr (ws, g', c')) \<Rightarrow>
          (case assign_positions ys g' c' s' of
             (s'', Inl e) \<Rightarrow> (s'', Inl e)
           | (s'', Inr (ws', counters)) \<Rightarrow> (s'', Inr (ws @ ws', counters))))"
proof (induction xs arbitrary: g c s)
  case Nil
  then show ?case by (simp split: prod.split sum.split)
next
  case (Cons p xs)
  show ?case
  proof (cases "c (triage_category p)")
    case None
    then show ?thesis by simp
  next
    case (Some x)
    let ?c = "c(triage_category p \<mapsto> x + 1)"
    let ?p = "p\<lparr>queue_position := \<lparr>qp_global = g, qp_category = x\<rparr>\<rparr>"
    let ?s = "add_patient s ?p"
    have IH: "assign_positions (xs @ ys) (g + 1) ?c ?s =
        (case assign_positions xs (g + 1) ?c ?s of
           (s', Inl e) \<Rightarrow> (s', Inl e)
         | (s', Inr (ws, g', c')) \<Rightarrow>
             (case assign_positions ys g' c' s' of
                (s'', Inl e) \<Rightarrow> (s'', Inl e)
              | (s'', Inr (ws', counters)) \<Rightarrow> (s'', Inr (ws @ ws', counters))))"
      by (rule Cons.IH)
    have l: "assign_positions ((p # xs) @ ys) g c s =
        (case assign_positions (xs @ ys) (g + 1) ?c ?s of
           (s', Inl e) \<Rightarrow> (s', Inl e)
         | (s', Inr (others, counters)) \<Rightarrow> (s', Inr (?p # others, counters)))"
      using Some by (simp add: Let_def)
    have r: "assign_positions (p # xs) g c s =
        (case assign_positions xs (g + 1) ?c ?s of
           (s', Inl e) \<Rightarrow> (s', Inl e)
         | (s', Inr (others, counters)) \<Rightarrow> (s', Inr (?p # others, counters)))"
      using Some by (simp add: Let_def)
    show ?thesis
      by (simp only: l r IH) (simp split: prod.split sum.split)
  qed
qed

subsection \<open>A pass that removes somebody\<close>

text \<open>
  With a removal, the second loop, the replacement loop and the growth branch
  together are one run of the numbering loop over the survivors, the replacements
  and the patient of the growth branch, if any.
\<close>

lemma second_pass_as_one:
  assumes "rm \<noteq> []"
  shows "second_pass gen pl rm s =
    (case assign_positions (filter (not_removed rm) pl @ map gen [0..<length rm])
            1 initial_category_positions s of
       (s', Inl e) \<Rightarrow> (s', Inl e)
     | (s', Inr (ws, cs)) \<Rightarrow> (s', Inr (Some cs)))"
  using assms
  by (simp only: assign_positions_append second_pass_def)
    (simp split: prod.split sum.split)

lemma grow_population_as_assign:
  "grow_population n grow newp (Some (g, c)) s =
     (case assign_positions (if n < 30 \<and> grow then [newp] else []) g c s of
        (s', Inl e) \<Rightarrow> (s', Some e)
      | (s', Inr r) \<Rightarrow> (s', None))"
  by (simp add: grow_population_def Let_def split: option.split)

lemma pass_with_removals:
  assumes "rm \<noteq> []"
  shows "(case second_pass gen pl rm s of
            (s3, Inl e) \<Rightarrow> (s3, Some e)
          | (s3, Inr counters) \<Rightarrow> grow_population n grow (gen (length rm)) counters s3) =
         (case assign_positions
                 (filter (not_removed rm) pl @ map gen [0..<length rm] @
                  growth_patients gen n (length rm) grow)
                 1 initial_category_positions s of
            (s', Inl e) \<Rightarrow> (s', Some e)
          | (s', Inr r) \<Rightarrow> (s', None))"
proof -
  let ?xs = "filter (not_removed rm) pl @ map gen [0..<length rm]"
  have a: "assign_positions (?xs @ growth_patients gen n (length rm) grow) 1 initial_category_positions s =
     (case assign_positions ?xs 1 initial_category_positions s of
        (s', Inl e) \<Rightarrow> (s', Inl e)
      | (s', Inr (ws, g', c')) \<Rightarrow>
          (case assign_positions (growth_patients gen n (length rm) grow) g' c' s' of
             (s'', Inl e) \<Rightarrow> (s'', Inl e)
           | (s'', Inr (ws', counters)) \<Rightarrow> (s'', Inr (ws @ ws', counters))))"
    by (rule assign_positions_append)
  obtain s' r where r: "assign_positions ?xs 1 initial_category_positions s = (s', r)"
    by (cases "assign_positions ?xs 1 initial_category_positions s") auto
  show ?thesis
  proof (cases r)
    case (Inl e)
    show ?thesis
      using a by (simp add: second_pass_as_one [OF assms] r Inl del: assign_positions.simps)
  next
    case (Inr t)
    obtain ws g' c' where t: "t = (ws, g', c')" by (cases t) auto
    show ?thesis
      using a
      by (simp add: second_pass_as_one [OF assms] r Inr t grow_population_as_assign
          growth_patients_def del: assign_positions.simps split: prod.split sum.split)
  qed
qed

lemma update_patients_with_removals:
  assumes "filter terminal (map snd (get_patients s)) \<noteq> []"
  shows "update_patients now draws gen grow s =
    (let sorted_list = sort_key canonical_key (map snd (get_patients s));
         rm = filter terminal sorted_list;
         pl = fst (first_pass draws 0 sorted_list (s\<lparr>last_update := Some now\<rparr>));
         s2 = foldl remove_patient (s\<lparr>last_update := Some now\<rparr>) (map patient_id rm)
     in case assign_positions
               (filter (not_removed rm) pl @ map gen [0..<length rm] @
                growth_patients gen (length (get_patients s)) (length rm) grow)
               1 initial_category_positions s2 of
          (s', Inl e) \<Rightarrow> (s', Some e)
        | (s', Inr r) \<Rightarrow> (s', None))"
proof -
  let ?sorted = "sort_key canonical_key (map snd (get_patients s))"
  let ?s1 = "s\<lparr>last_update := Some now\<rparr>"
  obtain pl rm s2 where fp: "first_pass draws 0 ?sorted ?s1 = (pl, rm, s2)"
    by (cases "first_pass draws 0 ?sorted ?s1") auto
  have rm: "rm = filter terminal ?sorted"
    using first_pass_removed [of draws 0 ?sorted ?s1] by (simp add: fp)
  have s2: "s2 = foldl remove_patient ?s1 (map patient_id rm)"
    using first_pass_store [of draws 0 ?sorted ?s1] by (simp add: fp rm)
  have pl: "pl = fst (first_pass draws 0 ?sorted ?s1)" by (simp add: fp)
  have "set (filter terminal ?sorted) = set (filter terminal (map snd (get_patients s)))"
    by simp
  with assms have ne: "rm \<noteq> []" unfolding rm by (metis set_empty)
  have "update_patients now draws gen grow s =
      (case second_pass gen pl rm s2 of
         (s3, Inl e) \<Rightarrow> (s3, Some e)
       | (s3, Inr counters) \<Rightarrow>
           grow_population (length (get_patients s)) grow (gen (length rm)) counters s3)"
    by (simp add: update_patients_def Let_def fp)
  also note pass_with_removals [OF ne]
  finally show ?thesis
    unfolding Let_def rm [symmetric] s2 [symmetric] pl [symmetric] .
qed

lemma initial_category_positions_valid:
  "k \<in> {1..5} \<Longrightarrow> initial_category_positions k = Some 1"
proof -
  assume "k \<in> {1..5}"
  then have "k = 1 \<or> k = 2 \<or> k = 3 \<or> k = 4 \<or> k = 5" by auto
  then show ?thesis by (auto simp add: initial_category_positions_def)
qed

lemma sorted_distinct_ids:
  assumes "wf_store s"
  shows "distinct (map patient_id (sort_key canonical_key (map snd (patients s))))"
proof -
  have "distinct (map patient_id (map snd (patients s)))"
    using assms by (rule wf_store_distinct_ids)
  then have "distinct (map snd (patients s)) \<and> inj_on patient_id (set (map snd (patients s)))"
    by (simp only: distinct_map)
  then show ?thesis by (simp add: distinct_map)
qed

lemma removed_count_sorted:
  "length (filter terminal (sort_key canonical_key (map snd (patients s)))) = removed_count s"
  by (simp add: removed_count_def filter_sort)

lemma count_via_map:
  "length (filter (\<lambda>q. f q = k) xs) = length (filter (\<lambda>c. c = k) (map f xs))"
  by (induction xs) simp_all

lemma survivors_after_first_pass:
  assumes "wf_store s"
  shows "map patient_id
           (filter (not_removed (filter terminal (sort_key canonical_key (map snd (patients s)))))
              (fst (first_pass draws n (sort_key canonical_key (map snd (patients s))) s'))) =
         map patient_id (survivors s)"
    and "map triage_category
           (filter (not_removed (filter terminal (sort_key canonical_key (map snd (patients s)))))
              (fst (first_pass draws n (sort_key canonical_key (map snd (patients s))) s'))) =
         map triage_category (survivors s)"
proof -
  let ?sorted = "sort_key canonical_key (map snd (patients s))"
  let ?R = "set (map patient_id (filter terminal ?sorted))"
  have n: "not_removed (filter terminal ?sorted) = (\<lambda>q. patient_id q \<notin> ?R)"
    by (rule ext) (simp add: not_removed_def)
  have d: "distinct (map patient_id ?sorted)"
    using assms by (rule sorted_distinct_ids)
  have f: "filter (\<lambda>q. patient_id q \<notin> ?R) ?sorted = survivors s"
    using not_removed_terminal [OF d] by (simp add: survivors_def)
  show "map patient_id (filter (not_removed (filter terminal ?sorted))
      (fst (first_pass draws n ?sorted s'))) = map patient_id (survivors s)"
    unfolding n by (simp only: first_pass_ids f)
  show "map triage_category (filter (not_removed (filter terminal ?sorted))
      (fst (first_pass draws n ?sorted s'))) = map triage_category (survivors s)"
    unfolding n by (simp only: first_pass_categories f)
qed

lemma survivors_ids_stored:
  "wf_store s \<Longrightarrow> set (map patient_id (survivors s)) \<subseteq> fst ` set (patients s)"
  using wf_store_ids [of s] by (auto simp add: survivors_def wf_store_def)

lemma survivors_ids_distinct:
  assumes "wf_store s"
  shows "distinct (map patient_id (survivors s))"
  unfolding survivors_def using sorted_distinct_ids [OF assms] by (rule distinct_map_filter)

lemma fst_pass_result:
  "fst (case x of (s', Inl e) \<Rightarrow> (s', Some e) | (s', Inr r) \<Rightarrow> (s', None)) = fst x"
  by (simp split: prod.split sum.split)

lemma wf_store_same_id:
  assumes "wf_store s" and "p \<in> set (map snd (patients s))" and "q \<in> set (map snd (patients s))"
    and "patient_id q = patient_id p"
  shows "q = p"
proof -
  have "distinct (map patient_id (map snd (patients s)))"
    using assms(1) by (rule wf_store_distinct_ids)
  then have "inj_on patient_id (set (map snd (patients s)))" by (simp only: distinct_map)
  with assms(2-4) show ?thesis by (meson inj_onD)
qed

lemma example_pair_wf: "wf_store example_pair"
  by (simp add: wf_store_def example_pair_def example_patient_def)

lemma example_pair_removed_count: "removed_count example_pair = 1"
  by (simp add: removed_count_def example_pair_def example_patient_def terminal_def)

lemma example_gen_id: "patient_id (example_gen n) = ''new'' @ replicate n CHR ''+''"
  by (simp add: example_gen_def example_patient_def)

lemma example_gen_category: "triage_category (example_gen n) = 2"
  by (simp add: example_gen_def example_patient_def)

subsection \<open>Loading the population of a request\<close>

text \<open>
  The stored patients when there are any; otherwise 25 generated patients, which
  the numbering loop accepts when their categories are in 1..5.
\<close>

lemma assign_positions_result_ids:
  "snd (assign_positions ps g c s) = Inr r \<Longrightarrow> map patient_id (fst r) = map patient_id ps"
proof (induction ps arbitrary: g c s r)
  case Nil
  then show ?case by auto
next
  case (Cons p ps)
  show ?case
  proof (cases "c (triage_category p)")
    case None
    with Cons.prems show ?thesis by (simp only: assign_positions_Cons_result) simp
  next
    case (Some x)
    let ?c = "c(triage_category p \<mapsto> x + 1)"
    let ?p = "p\<lparr>queue_position := \<lparr>qp_global = g, qp_category = x\<rparr>\<rparr>"
    let ?s = "add_patient s ?p"
    have e: "snd (assign_positions (p # ps) g c s) =
        (case snd (assign_positions ps (g + 1) ?c ?s) of
           Inl e \<Rightarrow> Inl e
         | Inr r' \<Rightarrow> Inr (?p # fst r', snd r'))"
      by (simp only: assign_positions_Cons_result) (simp add: Some)
    show ?thesis
    proof (cases "snd (assign_positions ps (g + 1) ?c ?s)")
      case (Inl e')
      with e Cons.prems show ?thesis by simp
    next
      case (Inr r')
      from Cons.IH [OF Inr] have "map patient_id (fst r') = map patient_id ps" .
      moreover from e Inr Cons.prems have "r = (?p # fst r', snd r')" by simp
      ultimately show ?thesis by simp
    qed
  qed
qed

lemma load_population_stored:
  "patients s \<noteq> [] \<Longrightarrow> load_population env s = (s, Inr (map snd (get_patients s)))"
  by (simp add: load_population_def Let_def get_patients_empty_iff)

lemma load_population_bootstrap:
  assumes e: "patients s = []"
    and c: "\<forall>n<25. triage_category (mock_generated env n) \<in> {1..5}"
  shows "\<exists>s2 ps. load_population env s = (s2, Inr ps) \<and> length ps = 25 \<and>
           map patient_id ps =
             map patient_id (sort_key canonical_key (generate_mock_patients (mock_generated env) 25))"
proof -
  let ?mock = "sort_key canonical_key (generate_mock_patients (mock_generated env) 25)"
  have cats: "\<forall>p \<in> set ?mock. initial_category_positions (triage_category p) \<noteq> None"
  proof
    fix p assume "p \<in> set ?mock"
    then have "p \<in> mock_generated env ` {0..<25}" by (simp add: generate_mock_patients_def)
    then obtain n where "n < 25" "p = mock_generated env n" by auto
    with c have "triage_category p \<in> {1..5}" by simp
    then show "initial_category_positions (triage_category p) \<noteq> None"
      by (simp add: initial_category_positions_valid)
  qed
  obtain s2 r where a: "assign_positions ?mock 1 initial_category_positions s = (s2, r)"
    by (cases "assign_positions ?mock 1 initial_category_positions s") auto
  have "\<exists>t. snd (assign_positions ?mock 1 initial_category_positions s) = Inr t"
    using cats by (rule assign_positions_succeeds)
  then obtain t where t: "r = Inr t" unfolding a by auto
  have "snd (assign_positions ?mock 1 initial_category_positions s) = Inr t"
    unfolding a t by simp
  then have ids: "map patient_id (fst t) = map patient_id ?mock"
    by (rule assign_positions_result_ids)
  have len: "length (fst t) = 25"
    using arg_cong [OF ids, of length] by (simp add: generate_mock_patients_def)
  have g: "get_patients s = []" using e by (simp add: get_patients_empty_iff)
  have "load_population env s = (s2, Inr (fst t))"
    unfolding load_population_def Let_def g a t by (simp split: prod.split)
  with len ids show ?thesis by blast
qed

lemma get_queue_loaded:
  assumes "scheduler env s = (s1, None)" and "load_population env s1 = (s2, Inr ps)"
  shows "get_queue env attrs (Some name) s =
           (s2, case sort_by_attr attrs name ps of
                  Inl e \<Rightarrow> Inl e
                | Inr sorted_ps \<Rightarrow> Inr (make_response (request_time env) sorted_ps))"
  by (simp add: get_queue_def serve_queue_def assms split: sum.split)

lemma example_empty_scheduler:
  "scheduler example_env example_empty = (example_empty\<lparr>last_update := Some 300000000\<rparr>, None)"
  by (simp add: scheduler_def example_empty_def example_env_def)

lemma example_env_mock_categories:
  "\<forall>n<25. triage_category (mock_generated example_env n) \<in> {1..5}"
proof (intro allI impI)
  fix n :: nat
  have "0 \<le> int n mod 5" "int n mod 5 < 5" by simp_all
  then show "triage_category (mock_generated example_env n) \<in> {1..5}"
    by (simp add: example_env_def example_patient_def)
qed


section \<open>Properties\<close>

subsection \<open>The phase state machine\<close>

text \<open>
  Claim C7. One call of \<^verbatim>\<open>progress_patient_phase\<close> moves a patient exactly one step
  along the table: \<^verbatim>\<open>registered\<close> to \<^verbatim>\<open>triaged\<close>, \<^verbatim>\<open>triaged\<close> to
  \<^verbatim>\<open>investigations_pending\<close>, \<^verbatim>\<open>investigations_pending\<close> to \<^verbatim>\<open>treatment\<close>,
  \<^verbatim>\<open>treatment\<close> to the drawn one of \<^verbatim>\<open>admitted\<close> and \<^verbatim>\<open>discharged\<close>. Entering
  \<^verbatim>\<open>investigations_pending\<close> sets the investigations to labs and imaging both
  \<^verbatim>\<open>ordered\<close>. A patient already \<^verbatim>\<open>admitted\<close> or \<^verbatim>\<open>discharged\<close> is returned
  unchanged.
\<close>

theorem progress_patient_phase_one_step:
  "(current_phase (status p) = ''registered'' \<longrightarrow>
      status (progress_patient_phase d p) = (status p)\<lparr>current_phase := ''triaged''\<rparr>) \<and>
   (current_phase (status p) = ''triaged'' \<longrightarrow>
      status (progress_patient_phase d p) =
        \<lparr>current_phase = ''investigations_pending'',
         investigations = Some \<lparr>labs = ''ordered'', imaging = ''ordered''\<rparr>\<rparr>) \<and>
   (current_phase (status p) = ''investigations_pending'' \<longrightarrow>
      current_phase (status (progress_patient_phase d p)) = ''treatment'') \<and>
   (current_phase (status p) = ''treatment'' \<longrightarrow>
      status (progress_patient_phase d p) = (status p)\<lparr>current_phase := choice_phase d\<rparr> \<and>
      choice_phase d \<in> {''admitted'', ''discharged''}) \<and>
   (current_phase (status p) \<in> {''admitted'', ''discharged''} \<longrightarrow>
      progress_patient_phase d p = p)"
proof (intro conjI impI)
  assume "current_phase (status p) = ''registered''"
  then show "status (progress_patient_phase d p) = (status p)\<lparr>current_phase := ''triaged''\<rparr>"
    by (simp add: progress_registered)
next
  assume "current_phase (status p) = ''triaged''"
  then show "status (progress_patient_phase d p) =
        \<lparr>current_phase = ''investigations_pending'',
         investigations = Some \<lparr>labs = ''ordered'', imaging = ''ordered''\<rparr>\<rparr>"
    by (simp add: progress_triaged)
next
  assume "current_phase (status p) = ''investigations_pending''"
  then show "current_phase (status (progress_patient_phase d p)) = ''treatment''"
    by (simp add: progress_investigations_pending)
next
  assume "current_phase (status p) = ''treatment''"
  then show "status (progress_patient_phase d p) = (status p)\<lparr>current_phase := choice_phase d\<rparr>"
    by (simp add: progress_treatment)
next
  show "choice_phase d \<in> {''admitted'', ''discharged''}"
    using choice_phase_cases [of d] by auto
next
  assume "current_phase (status p) \<in> {''admitted'', ''discharged''}"
  then show "progress_patient_phase d p = p"
    by (auto simp add: progress_other)
qed

text \<open>The five cases of C7 on concrete patients.\<close>

theorem progress_patient_phase_one_step_witness:
  "status (progress_patient_phase ChoseAdmitted (example_patient ''p'' 2 0 ''registered'')) =
     \<lparr>current_phase = ''triaged'', investigations = None\<rparr> \<and>
   status (progress_patient_phase ChoseAdmitted (example_patient ''p'' 2 0 ''triaged'')) =
     \<lparr>current_phase = ''investigations_pending'',
      investigations = Some \<lparr>labs = ''ordered'', imaging = ''ordered''\<rparr>\<rparr> \<and>
   current_phase (status (progress_patient_phase ChoseAdmitted example_investigated)) = ''treatment'' \<and>
   status (progress_patient_phase ChoseAdmitted (example_patient ''p'' 2 0 ''treatment'')) =
     \<lparr>current_phase = ''admitted'', investigations = None\<rparr> \<and>
   status (progress_patient_phase ChoseDischarged (example_patient ''p'' 2 0 ''treatment'')) =
     \<lparr>current_phase = ''discharged'', investigations = None\<rparr> \<and>
   progress_patient_phase ChoseDischarged (example_patient ''p'' 2 0 ''admitted'') =
     example_patient ''p'' 2 0 ''admitted''"
  using progress_patient_phase_one_step [of "example_patient ''p'' 2 0 ''registered''" ChoseAdmitted]
    progress_patient_phase_one_step [of "example_patient ''p'' 2 0 ''triaged''" ChoseAdmitted]
    progress_patient_phase_one_step [of example_investigated ChoseAdmitted]
    progress_patient_phase_one_step [of "example_patient ''p'' 2 0 ''treatment''" ChoseAdmitted]
    progress_patient_phase_one_step [of "example_patient ''p'' 2 0 ''treatment''" ChoseDischarged]
    progress_patient_phase_one_step [of "example_patient ''p'' 2 0 ''admitted''" ChoseDischarged]
  by (simp add: example_patient_def example_investigated_def)

text \<open>
  Claim C3, as amended. For a patient at \<^verbatim>\<open>investigations_pending\<close> with labs and
  imaging both \<^verbatim>\<open>ordered\<close>, the first call makes both \<^verbatim>\<open>pending\<close> and moves the
  phase to \<^verbatim>\<open>treatment\<close>. The investigations advance only in a call that finds the
  phase \<^verbatim>\<open>investigations_pending\<close>, so the second call leaves both at
  \<^verbatim>\<open>pending\<close> while the phase moves to the drawn terminal phase, and the third
  call changes nothing. The state \<^verbatim>\<open>reported\<close> is not reached.
\<close>

theorem investigations_progress_once:
  assumes "current_phase (status p) = ''investigations_pending''"
    and "investigations (status p) = Some \<lparr>labs = ''ordered'', imaging = ''ordered''\<rparr>"
  shows "status (progress_patient_phase d1 p) =
           \<lparr>current_phase = ''treatment'',
            investigations = Some \<lparr>labs = ''pending'', imaging = ''pending''\<rparr>\<rparr> \<and>
         status (progress_patient_phase d2 (progress_patient_phase d1 p)) =
           \<lparr>current_phase = choice_phase d2,
            investigations = Some \<lparr>labs = ''pending'', imaging = ''pending''\<rparr>\<rparr> \<and>
         progress_patient_phase d3 (progress_patient_phase d2 (progress_patient_phase d1 p)) =
           progress_patient_phase d2 (progress_patient_phase d1 p)"
proof -
  let ?p1 = "progress_patient_phase d1 p"
  let ?p2 = "progress_patient_phase d2 ?p1"
  have s1: "status ?p1 = \<lparr>current_phase = ''treatment'',
            investigations = Some \<lparr>labs = ''pending'', imaging = ''pending''\<rparr>\<rparr>"
    using assms by (simp add: progress_investigations_pending progress_test_def)
  then have ph1: "current_phase (status ?p1) = ''treatment''" by simp
  have s2: "status ?p2 = \<lparr>current_phase = choice_phase d2,
            investigations = Some \<lparr>labs = ''pending'', imaging = ''pending''\<rparr>\<rparr>"
    using progress_treatment [OF ph1, of d2] s1 by simp
  then have "current_phase (status ?p2) = choice_phase d2" by simp
  then have "current_phase (status ?p2) \<notin>
      {''registered'', ''triaged'', ''investigations_pending'', ''treatment''}"
    using choice_phase_cases [of d2] by auto
  then have "progress_patient_phase d3 ?p2 = ?p2" by (rule progress_other)
  with s1 s2 show ?thesis by simp
qed

text \<open>The amended C3 on a concrete patient.\<close>

theorem investigations_progress_once_witness:
  "status (progress_patient_phase ChoseAdmitted example_investigated) =
     \<lparr>current_phase = ''treatment'',
      investigations = Some \<lparr>labs = ''pending'', imaging = ''pending''\<rparr>\<rparr> \<and>
   status (progress_patient_phase ChoseAdmitted
       (progress_patient_phase ChoseAdmitted example_investigated)) =
     \<lparr>current_phase = ''admitted'',
      investigations = Some \<lparr>labs = ''pending'', imaging = ''pending''\<rparr>\<rparr>"
  using investigations_progress_once [of example_investigated ChoseAdmitted ChoseAdmitted ChoseAdmitted]
  by (simp add: example_investigated_def)

text \<open>
  C3 as the spec states it fails: after the second call both tests are still
  \<^verbatim>\<open>pending\<close>, not \<^verbatim>\<open>reported\<close>.
\<close>

theorem investigations_second_pass_counterexample:
  "investigations (status (progress_patient_phase ChoseDischarged
      (progress_patient_phase ChoseDischarged example_investigated))) =
     Some \<lparr>labs = ''pending'', imaging = ''pending''\<rparr> \<and>
   investigations (status (progress_patient_phase ChoseDischarged
      (progress_patient_phase ChoseDischarged example_investigated))) \<noteq>
     Some \<lparr>labs = ''reported'', imaging = ''reported''\<rparr>"
  by (simp add: example_investigated_def progress_investigations_pending progress_treatment
      progress_test_def)

text \<open>
  Claim C9, as amended. \<^verbatim>\<open>progress_patient_phase\<close> creates the investigations mapping
  on the step that enters \<^verbatim>\<open>investigations_pending\<close> and never removes it: after a
  call the mapping is present exactly when it was present before or the call left
  \<^verbatim>\<open>triaged\<close>. Hence "the mapping is present if and only if the phase is
  \<^verbatim>\<open>investigations_pending\<close> or a later one" is preserved by every call.
\<close>

theorem investigations_present_from_pending_on:
  "(investigations (status (progress_patient_phase d p)) \<noteq> None \<longleftrightarrow>
      investigations (status p) \<noteq> None \<or> current_phase (status p) = ''triaged'') \<and>
   ((investigations (status p) \<noteq> None \<longleftrightarrow> reached_investigations p) \<longrightarrow>
    (investigations (status (progress_patient_phase d p)) \<noteq> None \<longleftrightarrow>
       reached_investigations (progress_patient_phase d p)))"
  by (simp only: progress_has_investigations progress_reached) blast

text \<open>The amended C9 on a concrete patient.\<close>

theorem investigations_present_from_pending_on_witness:
  "(investigations (status example_investigated) \<noteq> None \<longleftrightarrow> reached_investigations example_investigated) \<and>
   investigations (status (progress_patient_phase ChoseAdmitted example_investigated)) \<noteq> None \<and>
   reached_investigations (progress_patient_phase ChoseAdmitted example_investigated)"
proof -
  have "investigations (status example_investigated) \<noteq> None \<longleftrightarrow>
      reached_investigations example_investigated"
    by (simp add: example_investigated_def reached_investigations_def)
  moreover have "investigations (status example_investigated) \<noteq> None"
    by (simp add: example_investigated_def)
  ultimately show ?thesis
    using investigations_present_from_pending_on [of ChoseAdmitted example_investigated]
    by blast
qed

text \<open>
  C9 as the spec states it fails: a patient that has moved on to \<^verbatim>\<open>treatment\<close> still
  carries its investigations.
\<close>

theorem investigations_kept_counterexample:
  "current_phase (status (progress_patient_phase ChoseDischarged example_investigated)) = ''treatment'' \<and>
   investigations (status (progress_patient_phase ChoseDischarged example_investigated)) =
     Some \<lparr>labs = ''pending'', imaging = ''pending''\<rparr>"
  by (simp add: example_investigated_def progress_investigations_pending progress_test_def)

subsection \<open>The advancement pass\<close>

text \<open>
  Claim C5. If no stored patient is \<^verbatim>\<open>admitted\<close> or \<^verbatim>\<open>discharged\<close> when the pass
  starts, so that the pass removes nobody, \<^verbatim>\<open>update_patients\<close> writes no patient
  back: the store after the pass is the store before it with only \<^verbatim>\<open>last_update\<close>
  set to the time of the pass, and every phase or investigation advance made in
  memory is lost. The growth branch adds nobody either: when it fires the pass
  ends in \<^verbatim>\<open>UnboundLocalError\<close> before anything is stored.
\<close>

theorem update_patients_without_removal:
  assumes "\<forall>p \<in> set (map snd (patients s)). \<not> terminal p"
  shows "fst (update_patients now draws gen grow s) = s\<lparr>last_update := Some now\<rparr> \<and>
         snd (update_patients now draws gen grow s) =
           (if length (get_patients s) < 30 \<and> grow then Some UnboundLocalError else None)"
proof -
  have "\<forall>p \<in> set (map snd (get_patients s)). \<not> terminal p"
    using assms get_patients_values [of s] by blast
  then have "filter terminal (map snd (get_patients s)) = []"
    by (simp add: filter_empty_conv)
  then show ?thesis by (simp add: update_patients_no_removal)
qed

text \<open>C5 on a store holding one \<^verbatim>\<open>registered\<close> patient.\<close>

theorem update_patients_without_removal_witness:
  "fst (update_patients 7 (\<lambda>n. ChoseDischarged) example_gen False example_store) =
     example_store\<lparr>last_update := Some 7\<rparr> \<and>
   snd (update_patients 7 (\<lambda>n. ChoseDischarged) example_gen False example_store) = None"
  using update_patients_without_removal [of example_store 7 "\<lambda>n. ChoseDischarged" example_gen False]
    example_store_terminal
  by simp

text \<open>
  Claim C4. The claim asks that a pass whose growth draw fires on a population below
  30 stores one more patient and completes without error, also when no patient was
  removed. On a store holding one \<^verbatim>\<open>registered\<close> patient the pass removes nobody,
  the locals \<^verbatim>\<open>global_pos\<close> and \<^verbatim>\<open>category_positions\<close> stay unbound, and the
  pass ends in \<^verbatim>\<open>UnboundLocalError\<close> with no patient added.
\<close>

theorem update_patients_growth_unbound:
  "update_patients 7 (\<lambda>n. ChoseDischarged) example_gen True example_store =
     (example_store\<lparr>last_update := Some 7\<rparr>, Some UnboundLocalError)"
proof -
  have g: "get_patients example_store = patients example_store"
    by (simp add: get_patients_def example_store_def example_patient_def)
  have "filter terminal (map snd (patients example_store)) = []"
    by (simp add: example_store_def example_patient_def terminal_def)
  then have t: "filter terminal (map snd (get_patients example_store)) = []"
    by (simp only: g)
  have l: "length (get_patients example_store) < 30"
    by (simp only: g) (simp add: example_store_def)
  from update_patients_no_removal [OF t, of 7 "\<lambda>n. ChoseDischarged" example_gen True] l
  show ?thesis by simp
qed

text \<open>
  Claim C1, as amended. The pass removes from the store the patients that are
  \<^verbatim>\<open>admitted\<close> or \<^verbatim>\<open>discharged\<close> when it starts: such a patient is absent when
  the pass is over (no generated patient taking its id). A patient that is not
  terminal when the pass starts is never removed by it, whatever phase the pass
  gives it: its id is still in the store when the pass is over. So a patient that
  becomes terminal during a pass is purged by a later pass, not by that one.
  The store is taken well formed: ids are the keys, each once.
\<close>

theorem update_patients_purges_at_entry:
  assumes wf: "wf_store s" and p: "p \<in> set (map snd (patients s))"
  shows "(terminal p \<and> (\<forall>n \<le> removed_count s. patient_id (gen n) \<noteq> patient_id p) \<longrightarrow>
            stored (fst (update_patients now draws gen grow s)) (patient_id p) = None) \<and>
         (\<not> terminal p \<longrightarrow>
            stored (fst (update_patients now draws gen grow s)) (patient_id p) \<noteq> None)"
proof -
  let ?m = "removed_count s"
  let ?sorted = "sort_key canonical_key (map snd (patients s))"
  let ?s1 = "s\<lparr>last_update := Some now\<rparr>"
  let ?rm = "filter terminal ?sorted"
  let ?pl = "fst (first_pass draws 0 ?sorted ?s1)"
  let ?s2 = "foldl remove_patient ?s1 (map patient_id ?rm)"
  let ?kept = "filter (not_removed ?rm) ?pl"
  let ?extra = "growth_patients gen (length (patients s)) ?m grow"
  let ?all = "?kept @ map gen [0..<?m] @ ?extra"
  let ?k = "patient_id p"
  have g: "get_patients s = patients s" using wf by (rule wf_store_get_patients)
  have m: "length ?rm = ?m" by (rule removed_count_sorted)
  have before: "stored s ?k = Some p" using wf p by (rule wf_store_stored)
  have ids: "map patient_id ?kept = map patient_id (survivors s)"
    using survivors_after_first_pass [OF wf] by blast
  have extra: "?extra = [] \<or> ?extra = [gen ?m]" by (simp add: growth_patients_def)
  have up: "fst (update_patients now draws gen grow s) =
      fst (assign_positions ?all 1 initial_category_positions ?s2)"
    if "filter terminal (map snd (patients s)) \<noteq> []"
  proof -
    from that have ne: "filter terminal (map snd (get_patients s)) \<noteq> []" unfolding g .
    show ?thesis
      using update_patients_with_removals [OF ne, of now draws gen grow]
      by (simp only: Let_def g m fst_pass_result)
  qed
  have 1: "stored (fst (update_patients now draws gen grow s)) ?k = None"
    if t: "terminal p" and f: "\<forall>n \<le> ?m. patient_id (gen n) \<noteq> ?k"
  proof -
    from t p have ne: "filter terminal (map snd (patients s)) \<noteq> []"
      by (auto simp add: filter_empty_conv)
    have "p \<in> set ?rm" using t p by simp
    then have "?k \<in> set (map patient_id ?rm)" by (simp only: set_map) (rule imageI)
    then have s2: "stored ?s2 ?k = None" by (simp only: stored_foldl_remove if_True)
    have "?k \<notin> set (map patient_id (survivors s))"
    proof
      assume "?k \<in> set (map patient_id (survivors s))"
      then obtain q where q: "q \<in> set (map snd (patients s))" "\<not> terminal q" "patient_id q = ?k"
        by (fastforce simp add: survivors_def)
      from wf_store_same_id [OF wf p q(1) q(3)] q(2) t show False by simp
    qed
    then have a: "?k \<notin> set (map patient_id ?kept)" by (simp only: ids simp_thms)
    have gs: "\<exists>n \<le> ?m. q = gen n" if "q \<in> set (map gen [0..<?m] @ ?extra)" for q
    proof -
      from that have "q \<in> gen ` {0..<?m} \<or> q \<in> set ?extra" by simp
      then show ?thesis
      proof
        assume "q \<in> gen ` {0..<?m}"
        then obtain n where "n < ?m" "q = gen n" by auto
        then show ?thesis using less_imp_le by blast
      next
        assume "q \<in> set ?extra"
        with extra have "q = gen ?m" by auto
        then show ?thesis by blast
      qed
    qed
    have b: "?k \<notin> set (map patient_id (map gen [0..<?m] @ ?extra))"
    proof
      assume "?k \<in> set (map patient_id (map gen [0..<?m] @ ?extra))"
      then obtain q where q: "q \<in> set (map gen [0..<?m] @ ?extra)" "patient_id q = ?k"
        unfolding set_map by (metis imageE)
      from gs [OF q(1)] obtain n where n: "n \<le> ?m" "q = gen n" by (metis)
      from f have "n \<le> ?m \<longrightarrow> patient_id (gen n) \<noteq> ?k" by (rule spec)
      then have "patient_id (gen n) \<noteq> ?k" using n(1) by (rule mp)
      with q(2) n(2) show False by simp
    qed
    have "?k \<notin> set (map patient_id ?kept) \<union> set (map patient_id (map gen [0..<?m] @ ?extra))"
      using a b by blast
    then have "?k \<notin> set (map patient_id ?all)"
      by (simp only: map_append set_append simp_thms)
    then have "?k \<notin> patient_id ` set ?all" by (simp only: set_map simp_thms)
    then have "stored (fst (assign_positions ?all 1 initial_category_positions ?s2)) ?k = stored ?s2 ?k"
      by (rule assign_positions_other)
    then show ?thesis by (simp only: up [OF ne] s2 simp_thms)
  qed
  have 2: "stored (fst (update_patients now draws gen grow s)) ?k \<noteq> None" if nt: "\<not> terminal p"
  proof (cases "filter terminal (map snd (patients s)) = []")
    case True
    then have "filter terminal (map snd (get_patients s)) = []" unfolding g .
    then show ?thesis using before by (simp add: update_patients_no_removal)
  next
    case False
    have "?k \<notin> set (map patient_id ?rm)"
    proof
      assume "?k \<in> set (map patient_id ?rm)"
      then obtain q where q: "q \<in> set (map snd (patients s))" "terminal q" "patient_id q = ?k"
        by fastforce
      from wf_store_same_id [OF wf p q(1) q(3)] q(2) nt show False by simp
    qed
    then have "stored ?s2 ?k = stored ?s1 ?k" by (simp only: stored_foldl_remove if_False)
    then have "stored ?s2 ?k \<noteq> None" using before by simp
    then have "stored (fst (assign_positions ?all 1 initial_category_positions ?s2)) ?k \<noteq> None"
      by (rule assign_positions_keeps)
    then show ?thesis by (simp only: up [OF False] simp_thms)
  qed
  from 1 2 show ?thesis by blast
qed

text \<open>
  The amended C1 on a store holding an \<^verbatim>\<open>admitted\<close> patient and one in
  \<^verbatim>\<open>treatment\<close>.
\<close>

theorem update_patients_purges_at_entry_witness:
  "wf_store example_pair \<and>
   example_patient ''b'' 1 20 ''admitted'' \<in> set (map snd (patients example_pair)) \<and>
   example_patient ''a'' 3 10 ''treatment'' \<in> set (map snd (patients example_pair)) \<and>
   terminal (example_patient ''b'' 1 20 ''admitted'') \<and>
   \<not> terminal (example_patient ''a'' 3 10 ''treatment'') \<and>
   stored (fst (update_patients 7 (\<lambda>n. ChoseDischarged) example_gen False example_pair)) ''b'' = None \<and>
   stored (fst (update_patients 7 (\<lambda>n. ChoseDischarged) example_gen False example_pair)) ''a'' \<noteq> None"
proof -
  let ?a = "example_patient ''a'' 3 10 ''treatment''"
  let ?b = "example_patient ''b'' 1 20 ''admitted''"
  have pb: "?b \<in> set (map snd (patients example_pair))" by (simp add: example_pair_def)
  have pa: "?a \<in> set (map snd (patients example_pair))" by (simp add: example_pair_def)
  have tb: "terminal ?b" by (simp add: terminal_def example_patient_def)
  have ta: "\<not> terminal ?a" by (simp add: terminal_def example_patient_def)
  have ib: "patient_id ?b = ''b''" and ia: "patient_id ?a = ''a''"
    by (simp_all add: example_patient_def)
  have f: "\<forall>n \<le> removed_count example_pair. patient_id (example_gen n) \<noteq> patient_id ?b"
    by (simp add: example_gen_id ib)
  from update_patients_purges_at_entry [OF example_pair_wf pb, of example_gen 7 "\<lambda>n. ChoseDischarged" False]
    tb f
  have 1: "stored (fst (update_patients 7 (\<lambda>n. ChoseDischarged) example_gen False example_pair)) ''b'' = None"
    unfolding ib by blast
  from update_patients_purges_at_entry [OF example_pair_wf pa, of example_gen 7 "\<lambda>n. ChoseDischarged" False]
    ta
  have 2: "stored (fst (update_patients 7 (\<lambda>n. ChoseDischarged) example_gen False example_pair)) ''a'' \<noteq> None"
    unfolding ia by blast
  from example_pair_wf pa pb ta tb 1 2 show ?thesis by blast
qed

text \<open>
  C1 as the spec states it fails: the pass moves the patient in \<^verbatim>\<open>treatment\<close> to
  \<^verbatim>\<open>discharged\<close> and stores it back with that phase.
\<close>

theorem update_patients_purges_at_entry_counterexample:
  "current_phase (status (example_patient ''a'' 3 10 ''treatment'')) = ''treatment'' \<and>
   stored example_pair ''a'' = Some (example_patient ''a'' 3 10 ''treatment'') \<and>
   map_option (\<lambda>q. current_phase (status q))
     (stored (fst (update_patients 7 (\<lambda>n. ChoseDischarged) example_gen False example_pair)) ''a'') =
     Some ''discharged''"
  by code_simp

text \<open>
  Claim C6. Take a well-formed store in which at least one patient is terminal, all
  triage categories (stored and generated) in 1..5, and generated ids that are new
  and distinct. Then the pass completes without error, and in the order "survivors
  sorted by (triage category, arrival time), then the replacements as generated"
  the patient at index \<open>i\<close> is stored with global position \<open>i + 1\<close> and with
  category position one more than the number of patients of its category before
  it in that order. So the global positions are 1..N and, in every category, the
  category positions are 1..M, without gaps or duplicates.
\<close>

theorem update_patients_dense_positions:
  assumes wf: "wf_store s"
    and removal: "0 < removed_count s"
    and cats: "\<forall>p \<in> set (map snd (patients s)). triage_category p \<in> {1..5}"
    and gen_cats: "\<forall>n \<le> removed_count s. triage_category (gen n) \<in> {1..5}"
    and fresh: "\<forall>n \<le> removed_count s. patient_id (gen n) \<notin> fst ` set (patients s)"
    and gen_distinct: "distinct (map (\<lambda>n. patient_id (gen n)) [0..<Suc (removed_count s)])"
  shows "snd (update_patients now draws gen grow s) = None \<and>
         sorted (map canonical_key (survivors s)) \<and>
         (\<forall>i < length (numbering_order gen s).
            \<exists>q. stored (fst (update_patients now draws gen grow s))
                   (patient_id (numbering_order gen s ! i)) = Some q \<and>
                patient_id q = patient_id (numbering_order gen s ! i) \<and>
                qp_global (queue_position q) = int i + 1 \<and>
                qp_category (queue_position q) =
                  int (length (filter (\<lambda>r. triage_category r = triage_category (numbering_order gen s ! i))
                                 (take i (numbering_order gen s)))) + 1)"
proof -
  let ?m = "removed_count s"
  let ?sorted = "sort_key canonical_key (map snd (patients s))"
  let ?s1 = "s\<lparr>last_update := Some now\<rparr>"
  let ?rm = "filter terminal ?sorted"
  let ?pl = "fst (first_pass draws 0 ?sorted ?s1)"
  let ?s2 = "foldl remove_patient ?s1 (map patient_id ?rm)"
  let ?kept = "filter (not_removed ?rm) ?pl"
  let ?extra = "growth_patients gen (length (patients s)) ?m grow"
  let ?ab = "?kept @ map gen [0..<?m]"
  let ?all = "?kept @ map gen [0..<?m] @ ?extra"
  let ?po = "numbering_order gen s"
  have g: "get_patients s = patients s" using wf by (rule wf_store_get_patients)
  have m: "length ?rm = ?m" by (rule removed_count_sorted)
  have ne: "filter terminal (map snd (get_patients s)) \<noteq> []"
  proof -
    have "filter terminal (map snd (patients s)) \<noteq> []"
      using removal unfolding removed_count_def length_greater_0_conv .
    then show ?thesis unfolding g .
  qed
  have up: "update_patients now draws gen grow s =
      (case assign_positions ?all 1 initial_category_positions ?s2 of
         (s', Inl e) \<Rightarrow> (s', Some e)
       | (s', Inr r) \<Rightarrow> (s', None))"
    using update_patients_with_removals [OF ne, of now draws gen grow]
    by (simp only: Let_def g m)
  have ids: "map patient_id ?kept = map patient_id (survivors s)"
    and kcats: "map triage_category ?kept = map triage_category (survivors s)"
    using survivors_after_first_pass [OF wf] by blast+
  have ab_ids: "map patient_id ?ab = map patient_id ?po"
    and ab_cats: "map triage_category ?ab = map triage_category ?po"
    by (simp_all add: numbering_order_def ids kcats)
  have ab_len: "length ?ab = length ?po"
    using arg_cong [OF ab_ids, of length] by simp
  have extra: "?extra = [] \<or> ?extra = [gen ?m]" by (simp add: growth_patients_def)
  have kept_cats: "\<forall>p \<in> set ?kept. triage_category p \<in> {1..5}"
  proof
    fix p assume "p \<in> set ?kept"
    then have "triage_category p \<in> triage_category ` set ?kept" by (rule imageI)
    then have "triage_category p \<in> set (map triage_category ?kept)" by (simp only: set_map)
    then have "triage_category p \<in> set (map triage_category (survivors s))" by (simp only: kcats)
    then obtain v where "v \<in> set (map snd (patients s))" "triage_category p = triage_category v"
      by (auto simp add: survivors_def)
    with cats show "triage_category p \<in> {1..5}" by auto
  qed
  have all_cats: "\<forall>p \<in> set ?all. initial_category_positions (triage_category p) \<noteq> None"
  proof
    fix p assume "p \<in> set ?all"
    then have "triage_category p \<in> {1..5}"
      using kept_cats gen_cats extra by auto
    then show "initial_category_positions (triage_category p) \<noteq> None"
      by (simp add: initial_category_positions_valid)
  qed
  have all_distinct: "distinct (map patient_id ?all)"
  proof -
    have a: "distinct (map patient_id (survivors s))" using wf by (rule survivors_ids_distinct)
    have b: "distinct (map (\<lambda>n. patient_id (gen n)) [0..<?m] @ map patient_id ?extra)"
    proof -
      have gd: "distinct (map (\<lambda>n. patient_id (gen n)) [0..<?m] @ [patient_id (gen ?m)])"
        using gen_distinct by simp
      from extra show ?thesis
      proof
        assume "?extra = []"
        with gd show ?thesis by simp
      next
        assume "?extra = [gen ?m]"
        with gd show ?thesis by (simp only: list.map)
      qed
    qed
    have c: "set (map patient_id (survivors s)) \<inter>
        set (map (\<lambda>n. patient_id (gen n)) [0..<?m] @ map patient_id ?extra) = {}"
    proof -
      have "set (map (\<lambda>n. patient_id (gen n)) [0..<?m] @ map patient_id ?extra)
          \<subseteq> (\<lambda>n. patient_id (gen n)) ` {n. n \<le> ?m}"
        using extra by auto
      moreover have "(\<lambda>n. patient_id (gen n)) ` {n. n \<le> ?m} \<inter> fst ` set (patients s) = {}"
        using fresh by blast
      ultimately show ?thesis using survivors_ids_stored [OF wf] by blast
    qed
    have "map patient_id ?all =
        map patient_id (survivors s) @ (map (\<lambda>n. patient_id (gen n)) [0..<?m] @ map patient_id ?extra)"
      by (simp add: ids comp_def)
    with a b c show ?thesis by (simp only: distinct_append)
  qed
  obtain s' r where res: "assign_positions ?all 1 initial_category_positions ?s2 = (s', r)"
    by (cases "assign_positions ?all 1 initial_category_positions ?s2") auto
  have "\<exists>t. snd (assign_positions ?all 1 initial_category_positions ?s2) = Inr t"
    using all_cats by (rule assign_positions_succeeds)
  then obtain t where "snd (s', r) = Inr t" unfolding res ..
  then have ok: "r = Inr t" by simp
  have fin: "update_patients now draws gen grow s = (s', None)"
    unfolding up res ok by simp
  have s': "s' = fst (assign_positions ?all 1 initial_category_positions ?s2)"
    by (simp add: res)
  have pos: "\<exists>q. stored s' (patient_id (?po ! i)) = Some q \<and>
                patient_id q = patient_id (?po ! i) \<and>
                qp_global (queue_position q) = int i + 1 \<and>
                qp_category (queue_position q) =
                  int (length (filter (\<lambda>r. triage_category r = triage_category (?po ! i))
                                 (take i ?po))) + 1"
    if i: "i < length ?po" for i
  proof -
    have i_ab: "i < length ?ab" using i ab_len by simp
    then have i_all: "i < length ?all" by simp
    have split: "?all = ?ab @ ?extra" by simp
    have nth: "?all ! i = ?ab ! i" using i_ab unfolding split by (simp only: nth_append if_True)
    have tk: "take i ?all = take i ?ab" using i_ab unfolding split by simp
    have id_i: "patient_id (?all ! i) = patient_id (?po ! i)"
      using arg_cong [OF ab_ids, of "\<lambda>xs. xs ! i"] i i_ab by (simp only: nth nth_map)
    have cat_i: "triage_category (?all ! i) = triage_category (?po ! i)"
      using arg_cong [OF ab_cats, of "\<lambda>xs. xs ! i"] i i_ab by (simp only: nth nth_map)
    have "triage_category (?all ! i) \<in> {1..5}"
      using all_cats i_all kept_cats gen_cats extra nth_mem [OF i_all] by auto
    then have one: "the (initial_category_positions (triage_category (?all ! i))) = 1"
      by (simp add: initial_category_positions_valid)
    have cnt: "length (filter (\<lambda>q. triage_category q = triage_category (?all ! i)) (take i ?all)) =
        length (filter (\<lambda>r. triage_category r = triage_category (?po ! i)) (take i ?po))"
    proof -
      have "map triage_category (take i ?ab) = map triage_category (take i ?po)"
        using arg_cong [OF ab_cats, of "take i"] by (simp only: take_map)
      then show ?thesis
        by (simp only: tk cat_i count_via_map [of triage_category])
    qed
    define k where "k = length (filter (\<lambda>q. triage_category q = triage_category (?all ! i)) (take i ?all))"
    define c1 where "c1 = the (initial_category_positions (triage_category (?all ! i)))"
    define a where "a = ?all ! i"
    let ?q = "a\<lparr>queue_position := \<lparr>qp_global = 1 + int i, qp_category = c1 + int k\<rparr>\<rparr>"
    have "stored s' (patient_id (?all ! i)) = Some ?q"
      unfolding s' k_def c1_def a_def using all_cats all_distinct i_all by (rule assign_positions_stored)
    then have "stored s' (patient_id (?po ! i)) = Some ?q" by (simp only: id_i)
    moreover have "patient_id ?q = patient_id (?po ! i)" using id_i by (simp add: a_def)
    moreover have "qp_global (queue_position ?q) = int i + 1" by simp
    moreover have "qp_category (queue_position ?q) =
        int (length (filter (\<lambda>r. triage_category r = triage_category (?po ! i)) (take i ?po))) + 1"
    proof -
      have c: "c1 = 1" unfolding c1_def by (rule one)
      have kk: "k = length (filter (\<lambda>r. triage_category r = triage_category (?po ! i)) (take i ?po))"
        unfolding k_def by (rule cnt)
      show ?thesis by (simp add: c kk)
    qed
    ultimately show ?thesis by blast
  qed
  have srt: "sorted (map canonical_key (survivors s))"
    unfolding survivors_def by (rule sorted_filter) simp
  from pos srt show ?thesis by (simp add: fin)
qed

text \<open>C6 on a store of two patients, one of them \<^verbatim>\<open>admitted\<close>.\<close>

theorem update_patients_dense_positions_witness:
  "wf_store example_pair \<and>
   removed_count example_pair = 1 \<and>
   map patient_id (numbering_order example_gen example_pair) = [''a'', ''new''] \<and>
   map triage_category (numbering_order example_gen example_pair) = [3, 2] \<and>
   snd (update_patients 7 (\<lambda>n. ChoseDischarged) example_gen True example_pair) = None \<and>
   (\<exists>q. stored (fst (update_patients 7 (\<lambda>n. ChoseDischarged) example_gen True example_pair)) ''a''
           = Some q \<and>
        qp_global (queue_position q) = 1 \<and> qp_category (queue_position q) = 1) \<and>
   (\<exists>q. stored (fst (update_patients 7 (\<lambda>n. ChoseDischarged) example_gen True example_pair)) ''new''
           = Some q \<and>
        qp_global (queue_position q) = 2 \<and> qp_category (queue_position q) = 1)"
proof -
  let ?s' = "fst (update_patients 7 (\<lambda>n. ChoseDischarged) example_gen True example_pair)"
  let ?no = "numbering_order example_gen example_pair"
  have r: "0 < removed_count example_pair" by (simp add: example_pair_removed_count)
  have c: "\<forall>p \<in> set (map snd (patients example_pair)). triage_category p \<in> {1..5}"
    by (simp add: example_pair_def example_patient_def)
  have gc: "\<forall>n \<le> removed_count example_pair. triage_category (example_gen n) \<in> {1..5}"
    by (simp add: example_gen_category)
  have f: "\<forall>n \<le> removed_count example_pair.
      patient_id (example_gen n) \<notin> fst ` set (patients example_pair)"
    by (simp add: example_gen_id example_pair_def)
  have d: "distinct (map (\<lambda>n. patient_id (example_gen n)) [0..<Suc (removed_count example_pair)])"
    by (simp add: example_pair_removed_count example_gen_id)
  have no: "?no = [example_patient ''a'' 3 10 ''treatment'', example_gen 0]"
    by (simp add: numbering_order_def survivors_def example_pair_removed_count)
      (simp add: example_pair_def example_patient_def terminal_def)
  have o: "map patient_id ?no = [''a'', ''new'']"
    by (simp add: no example_gen_id) (simp add: example_patient_def)
  have oc: "map triage_category ?no = [3, 2]"
    by (simp add: no example_gen_category) (simp add: example_patient_def)
  note t = update_patients_dense_positions [OF example_pair_wf r c gc f d, of 7 "\<lambda>n. ChoseDischarged" True]
  from t have ok: "snd (update_patients 7 (\<lambda>n. ChoseDischarged) example_gen True example_pair) = None"
    by blast
  from t have all: "\<forall>i < length ?no.
      \<exists>q. stored ?s' (patient_id (?no ! i)) = Some q \<and>
          patient_id q = patient_id (?no ! i) \<and>
          qp_global (queue_position q) = int i + 1 \<and>
          qp_category (queue_position q) =
            int (length (filter (\<lambda>r. triage_category r = triage_category (?no ! i)) (take i ?no))) + 1"
    by blast
  have len: "length ?no = 2" by (simp add: no)
  have ida: "patient_id (?no ! 0) = ''a''" and idn: "patient_id (?no ! 1) = ''new''"
    using arg_cong [OF o, of "\<lambda>xs. xs ! 0"] arg_cong [OF o, of "\<lambda>xs. xs ! 1"] len
    by (simp_all only: no nth_Cons_0 nth_Cons_Suc One_nat_def list.map)
  have cnt0: "length (filter (\<lambda>r. triage_category r = triage_category (?no ! 0)) (take 0 ?no)) = 0"
    by simp
  have cnt1: "length (filter (\<lambda>r. triage_category r = triage_category (?no ! 1)) (take 1 ?no)) = 0"
    by (simp add: no example_gen_category) (simp add: example_patient_def)
  from all len have "\<exists>q. stored ?s' (patient_id (?no ! 0)) = Some q \<and>
          patient_id q = patient_id (?no ! 0) \<and>
          qp_global (queue_position q) = int 0 + 1 \<and>
          qp_category (queue_position q) =
            int (length (filter (\<lambda>r. triage_category r = triage_category (?no ! 0)) (take 0 ?no))) + 1"
    by (metis zero_less_numeral)
  then have a: "\<exists>q. stored ?s' ''a'' = Some q \<and>
        qp_global (queue_position q) = 1 \<and> qp_category (queue_position q) = 1"
    unfolding ida cnt0 by auto
  from all len have "\<exists>q. stored ?s' (patient_id (?no ! 1)) = Some q \<and>
          patient_id q = patient_id (?no ! 1) \<and>
          qp_global (queue_position q) = int 1 + 1 \<and>
          qp_category (queue_position q) =
            int (length (filter (\<lambda>r. triage_category r = triage_category (?no ! 1)) (take 1 ?no))) + 1"
    by (metis one_less_numeral_iff semiring_norm(76))
  then have b: "\<exists>q. stored ?s' ''new'' = Some q \<and>
        qp_global (queue_position q) = 2 \<and> qp_category (queue_position q) = 1"
    unfolding idn cnt1 by auto
  from example_pair_wf example_pair_removed_count o oc ok a b show ?thesis by blast
qed

subsection \<open>The scheduler\<close>

text \<open>
  Claim C8. On a queue request that finds no \<^verbatim>\<open>last_update\<close> in the store, the
  scheduler stores the time of the request as \<^verbatim>\<open>last_update\<close> and runs no pass:
  it changes nothing else in the store and cannot fail, the request is served from
  that store, and a population that is not empty is left exactly as it was.
\<close>

theorem get_queue_bootstrap:
  assumes "last_update s = None"
  shows "scheduler env s = (s\<lparr>last_update := Some (request_time env)\<rparr>, None) \<and>
         get_queue env attrs sort_arg s =
           serve_queue env attrs sort_arg (s\<lparr>last_update := Some (request_time env)\<rparr>) \<and>
         last_update (fst (get_queue env attrs sort_arg s)) = Some (request_time env) \<and>
         (patients s \<noteq> [] \<longrightarrow> patients (fst (get_queue env attrs sort_arg s)) = patients s)"
proof -
  have eq: "get_queue env attrs sort_arg s =
      serve_queue env attrs sort_arg (s\<lparr>last_update := Some (request_time env)\<rparr>)"
    using assms by (simp add: get_queue_def scheduler_def Let_def)
  have "last_update (fst (get_queue env attrs sort_arg s)) = Some (request_time env)"
    by (simp add: eq serve_queue_last_update)
  moreover have "patients s \<noteq> [] \<longrightarrow> patients (fst (get_queue env attrs sort_arg s)) = patients s"
    by (simp add: eq serve_queue_nonempty)
  moreover have "scheduler env s = (s\<lparr>last_update := Some (request_time env)\<rparr>, None)"
    using assms by (simp add: scheduler_def Let_def)
  ultimately show ?thesis using eq by simp
qed

text \<open>C8 on a store holding one patient and no timestamp.\<close>

theorem get_queue_bootstrap_witness:
  "last_update (example_store\<lparr>last_update := None\<rparr>) = None \<and>
   last_update (fst (get_queue example_env (Patient_attrs 0) None (example_store\<lparr>last_update := None\<rparr>)))
     = Some 300000000 \<and>
   patients (fst (get_queue example_env (Patient_attrs 0) None (example_store\<lparr>last_update := None\<rparr>)))
     = [(''a'', example_patient ''a'' 2 10 ''registered'')]"
proof -
  let ?s = "example_store\<lparr>last_update := None\<rparr>"
  have n: "last_update ?s = None" by simp
  have ne: "patients ?s \<noteq> []" by (simp add: example_store_def)
  have r: "request_time example_env = 300000000" by (simp add: example_env_def)
  have ps: "patients ?s = [(''a'', example_patient ''a'' 2 10 ''registered'')]"
    by (simp add: example_store_def)
  note t = get_queue_bootstrap [OF n, of example_env "Patient_attrs 0" None]
  from t have l: "last_update (fst (get_queue example_env (Patient_attrs 0) None ?s)) =
      Some (request_time example_env)"
    by blast
  from t ne have p: "patients (fst (get_queue example_env (Patient_attrs 0) None ?s)) = patients ?s"
    by blast
  show ?thesis using n l p r ps by simp
qed

text \<open>
  Claim C2, as amended. On a request that finds a timestamp, the pass itself always
  sets \<^verbatim>\<open>last_update\<close> to its own reading of the clock (line 70). After the pass
  the scheduler overwrites it with the time of the request if and only if at least
  one full interval of 15 minutes has elapsed since the previous timestamp (and the
  pass did not raise). So the stored timestamp after the request is the time of the
  request when 15 minutes or more have elapsed, and the time of the pass otherwise:
  in both cases a clock reading of this request, not the previous timestamp.
\<close>

theorem get_queue_cursor:
  assumes "last_update s = Some previous"
  shows "last_update (fst (get_queue env attrs sort_arg s)) =
           Some (if snd (update_patients (pass_time env) (pass_draws env) (pass_generated env)
                           (pass_grow env) s) = None
                    \<and> 900000000 \<le> request_time env - previous
                 then request_time env else pass_time env) \<and>
         (0 < updates_needed (request_time env) previous \<longleftrightarrow>
            900000000 \<le> request_time env - previous)"
  using get_queue_last_update [OF assms, of env attrs sort_arg]
  by (simp add: updates_needed_pos_iff)

text \<open>The amended C2 five minutes and fifteen minutes after the previous timestamp.\<close>

theorem get_queue_cursor_witness:
  "last_update example_store = Some 0 \<and>
   last_update (fst (get_queue example_env (Patient_attrs 0) None example_store)) = Some 300000017 \<and>
   last_update (fst (get_queue (example_env\<lparr>request_time := 900000000\<rparr>) (Patient_attrs 0) None
      example_store)) = Some 900000000"
proof -
  have a: "last_update example_store = Some 0" by (simp add: example_store_def)
  have p: "update_patients (pass_time (example_env\<lparr>request_time := 900000000\<rparr>))
     (pass_draws (example_env\<lparr>request_time := 900000000\<rparr>))
     (pass_generated (example_env\<lparr>request_time := 900000000\<rparr>))
     (pass_grow (example_env\<lparr>request_time := 900000000\<rparr>)) example_store
      = (example_store\<lparr>last_update := Some 300000017\<rparr>, None)"
    using example_pass by simp
  show ?thesis
    using get_queue_cursor [OF a, of example_env "Patient_attrs 0" None]
      get_queue_cursor [OF a, of "example_env\<lparr>request_time := 900000000\<rparr>" "Patient_attrs 0" None]
    by (simp add: a example_pass p) (simp add: example_env_def)
qed

text \<open>
  C2 as the spec states it fails: five minutes after the previous timestamp \<open>0\<close> the
  stored timestamp is not left unchanged; it is the time of the pass.
\<close>

theorem get_queue_cursor_counterexample:
  "last_update example_store = Some 0 \<and>
   request_time example_env - 0 < 900000000 \<and>
   last_update (fst (get_queue example_env (Patient_attrs 0) None example_store)) = Some 300000017"
proof -
  have a: "last_update example_store = Some 0" by (simp add: example_store_def)
  have "updates_needed (request_time example_env) 0 = 0"
    by (simp add: updates_needed_def minutes_passed_def example_env_def)
  then show ?thesis
    using get_queue_last_update [OF a, of example_env "Patient_attrs 0" None]
    by (simp add: a example_pass) (simp add: example_env_def)
qed

subsection \<open>The sort parameter of the queue request\<close>

text \<open>
  Claim C10, as amended. Once the scheduler has run without an exception, the request
  loads its list of patients: the stored ones, or, on an empty store, 25 generated
  patients (their categories in 1..5), sorted, numbered and stored. In both cases
  the list is not empty and the \<^verbatim>\<open>sort\<close> parameter is resolved on it by
  \<^verbatim>\<open>getattr\<close> with no validation and no fallback. A name that is not an attribute
  of \<^verbatim>\<open>Patient\<close> makes the request fail with \<^verbatim>\<open>AttributeError\<close>. A name whose
  attribute is a number on every patient, or a string on every patient, makes the
  request return the list stably sorted by that attribute. A name whose attribute
  is a dict or a method makes the request fail with \<^verbatim>\<open>TypeError\<close> as soon as there
  are two patients to compare, which is always so for the 25 generated ones. The
  store is left as the loading left it in every case.
\<close>

theorem get_queue_sort_attribute:
  assumes "scheduler env s = (s1, None)"
    and "patients s1 = [] \<longrightarrow> (\<forall>n<25. triage_category (mock_generated env n) \<in> {1..5})"
  shows
    "\<exists>s2 ps.
       load_population env s1 = (s2, Inr ps) \<and> ps \<noteq> [] \<and>
       (patients s1 \<noteq> [] \<longrightarrow> s2 = s1 \<and> ps = map snd (get_patients s1)) \<and>
       (patients s1 = [] \<longrightarrow>
          length ps = 25 \<and>
          map patient_id ps =
            map patient_id (sort_key canonical_key (generate_mock_patients (mock_generated env) 25))) \<and>
       (attrs name = None \<longrightarrow>
          get_queue env attrs (Some name) s = (s2, Inl AttributeError)) \<and>
       (\<forall>f k. attrs name = Some f \<and> (\<forall>p \<in> set ps. f p = PyInt (k p)) \<longrightarrow>
          get_queue env attrs (Some name) s =
            (s2, Inr (make_response (request_time env) (sort_key k ps)))) \<and>
       (\<forall>f k. attrs name = Some f \<and> (\<forall>p \<in> set ps. f p = PyStr (k p)) \<longrightarrow>
          get_queue env attrs (Some name) s =
            (s2, Inr (make_response (request_time env) (sort_key k ps)))) \<and>
       (\<forall>f. attrs name = Some f \<and> (\<forall>p \<in> set ps. f p = PyDict \<or> f p = PyMethod) \<and>
            2 \<le> length ps \<longrightarrow>
          get_queue env attrs (Some name) s = (s2, Inl TypeError))"
proof -
  have "\<exists>s2 ps. load_population env s1 = (s2, Inr ps) \<and> ps \<noteq> [] \<and>
       (patients s1 \<noteq> [] \<longrightarrow> s2 = s1 \<and> ps = map snd (get_patients s1)) \<and>
       (patients s1 = [] \<longrightarrow>
          length ps = 25 \<and>
          map patient_id ps =
            map patient_id (sort_key canonical_key (generate_mock_patients (mock_generated env) 25)))"
  proof (cases "patients s1 = []")
    case True
    with assms(2) have "\<forall>n<25. triage_category (mock_generated env n) \<in> {1..5}" by blast
    from load_population_bootstrap [OF True this] obtain s2 ps where
      l: "load_population env s1 = (s2, Inr ps)" "length ps = 25"
        "map patient_id ps =
           map patient_id (sort_key canonical_key (generate_mock_patients (mock_generated env) 25))"
      by blast
    from l(2) have "ps \<noteq> []" by auto
    with l True show ?thesis by blast
  next
    case False
    then have "load_population env s1 = (s1, Inr (map snd (get_patients s1)))"
      by (rule load_population_stored)
    moreover have "map snd (get_patients s1) \<noteq> []"
      using False by (simp add: get_patients_empty_iff)
    ultimately show ?thesis using False by blast
  qed
  then obtain s2 ps where l: "load_population env s1 = (s2, Inr ps)" and ne: "ps \<noteq> []"
    and st: "patients s1 \<noteq> [] \<longrightarrow> s2 = s1 \<and> ps = map snd (get_patients s1)"
    and bs: "patients s1 = [] \<longrightarrow>
          length ps = 25 \<and>
          map patient_id ps =
            map patient_id (sort_key canonical_key (generate_mock_patients (mock_generated env) 25))"
    by blast
  have g: "get_queue env attrs (Some name) s =
      (s2, case sort_by_attr attrs name ps of
             Inl e \<Rightarrow> Inl e
           | Inr sorted_ps \<Rightarrow> Inr (make_response (request_time env) sorted_ps))"
    using assms(1) l by (rule get_queue_loaded)
  have 1: "attrs name = None \<longrightarrow> get_queue env attrs (Some name) s = (s2, Inl AttributeError)"
    using ne by (simp add: g sort_by_attr_missing)
  have 2: "\<forall>f k. attrs name = Some f \<and> (\<forall>p \<in> set ps. f p = PyInt (k p)) \<longrightarrow>
        get_queue env attrs (Some name) s =
          (s2, Inr (make_response (request_time env) (sort_key k ps)))"
  proof (intro allI impI)
    fix f and k :: "patient \<Rightarrow> int"
    assume a: "attrs name = Some f \<and> (\<forall>p \<in> set ps. f p = PyInt (k p))"
    then have "sort_by_attr attrs name ps = Inr (sort_key k ps)"
      using sort_by_attr_ordered [of PyInt attrs name f ps k, OF py_lt_int] by blast
    then show "get_queue env attrs (Some name) s =
          (s2, Inr (make_response (request_time env) (sort_key k ps)))"
      by (simp add: g)
  qed
  have 3: "\<forall>f k. attrs name = Some f \<and> (\<forall>p \<in> set ps. f p = PyStr (k p)) \<longrightarrow>
        get_queue env attrs (Some name) s =
          (s2, Inr (make_response (request_time env) (sort_key k ps)))"
  proof (intro allI impI)
    fix f and k :: "patient \<Rightarrow> string"
    assume a: "attrs name = Some f \<and> (\<forall>p \<in> set ps. f p = PyStr (k p))"
    then have "sort_by_attr attrs name ps = Inr (sort_key k ps)"
      using sort_by_attr_ordered [of PyStr attrs name f ps k, OF py_lt_str] by blast
    then show "get_queue env attrs (Some name) s =
          (s2, Inr (make_response (request_time env) (sort_key k ps)))"
      by (simp add: g)
  qed
  have 4: "\<forall>f. attrs name = Some f \<and> (\<forall>p \<in> set ps. f p = PyDict \<or> f p = PyMethod) \<and>
          2 \<le> length ps \<longrightarrow>
        get_queue env attrs (Some name) s = (s2, Inl TypeError)"
  proof (intro allI impI)
    fix f
    assume a: "attrs name = Some f \<and> (\<forall>p \<in> set ps. f p = PyDict \<or> f p = PyMethod) \<and>
          2 \<le> length ps"
    then have "sort_by_attr attrs name ps = Inl TypeError"
      using sort_by_attr_unordered [of attrs name f ps] by simp
    then show "get_queue env attrs (Some name) s = (s2, Inl TypeError)"
      by (simp add: g)
  qed
  show ?thesis
    by (rule exI [of _ s2], rule exI [of _ ps]) (intro conjI l ne st bs 1 2 3 4)
qed

text \<open>
  The amended C10 on a store of two patients (an unknown name, a numeric attribute,
  a string attribute and a dict attribute) and on an empty store, where the 25
  generated patients are sorted (an unknown name, a dict attribute and a numeric
  attribute).
\<close>

theorem get_queue_sort_attribute_witness:
  "snd (get_queue example_env (Patient_attrs 0) (Some ''no_such_attribute'') example_pair) =
     Inl AttributeError \<and>
   snd (get_queue example_env (Patient_attrs 0) (Some ''triage_category'') example_pair) =
     Inr (make_response 300000000
           [example_patient ''b'' 1 20 ''admitted'', example_patient ''a'' 3 10 ''treatment'']) \<and>
   snd (get_queue example_env (Patient_attrs 0) (Some ''id'') example_pair) =
     Inr (make_response 300000000
           [example_patient ''a'' 3 10 ''treatment'', example_patient ''b'' 1 20 ''admitted'']) \<and>
   snd (get_queue example_env (Patient_attrs 0) (Some ''status'') example_pair) = Inl TypeError \<and>
   patients example_empty = [] \<and>
   snd (get_queue example_env (Patient_attrs 0) (Some ''no_such_attribute'') example_empty) =
     Inl AttributeError \<and>
   snd (get_queue example_env (Patient_attrs 0) (Some ''queue_position'') example_empty) =
     Inl TypeError \<and>
   (\<exists>r. snd (get_queue example_env (Patient_attrs 0) (Some ''triage_category'') example_empty) = Inr r \<and>
        waitingCount r = 25)"
proof -
  let ?s1 = "example_pair\<lparr>last_update := Some 300000000\<rparr>"
  let ?e1 = "example_empty\<lparr>last_update := Some 300000000\<rparr>"
  let ?a = "Patient_attrs 0"
  let ?C = "\<lambda>s s1 name s2 ps.
       load_population example_env s1 = (s2, Inr ps) \<and> ps \<noteq> [] \<and>
       (patients s1 \<noteq> [] \<longrightarrow> s2 = s1 \<and> ps = map snd (get_patients s1)) \<and>
       (patients s1 = [] \<longrightarrow>
          length ps = 25 \<and>
          map patient_id ps =
            map patient_id (sort_key canonical_key
              (generate_mock_patients (mock_generated example_env) 25))) \<and>
       (?a name = None \<longrightarrow>
          get_queue example_env ?a (Some name) s = (s2, Inl AttributeError)) \<and>
       (\<forall>f k. ?a name = Some f \<and> (\<forall>p \<in> set ps. f p = PyInt (k p)) \<longrightarrow>
          get_queue example_env ?a (Some name) s =
            (s2, Inr (make_response (request_time example_env) (sort_key k ps)))) \<and>
       (\<forall>f k. ?a name = Some f \<and> (\<forall>p \<in> set ps. f p = PyStr (k p)) \<longrightarrow>
          get_queue example_env ?a (Some name) s =
            (s2, Inr (make_response (request_time example_env) (sort_key k ps)))) \<and>
       (\<forall>f. ?a name = Some f \<and> (\<forall>p \<in> set ps. f p = PyDict \<or> f p = PyMethod) \<and>
            2 \<le> length ps \<longrightarrow>
          get_queue example_env ?a (Some name) s = (s2, Inl TypeError))"
  note sch = example_pair_scheduler
  note sch_e = example_empty_scheduler
  have ne: "patients ?s1 \<noteq> []" by (simp add: example_pair_def)
  have em: "patients ?e1 = []" by (simp add: example_empty_def)
  have r: "request_time example_env = 300000000" by (simp add: example_env_def)
  have h: "patients ?s1 = [] \<longrightarrow> (\<forall>n<25. triage_category (mock_generated example_env n) \<in> {1..5})"
    using ne by simp
  have he: "patients ?e1 = [] \<longrightarrow> (\<forall>n<25. triage_category (mock_generated example_env n) \<in> {1..5})"
    using example_env_mock_categories by simp
  have len: "2 \<le> length (map snd (get_patients ?s1))"
    by (simp only: example_pair_stored) simp
  have 1: "snd (get_queue example_env ?a (Some ''no_such_attribute'') example_pair) = Inl AttributeError"
  proof -
    have n: "?a ''no_such_attribute'' = None" by (simp add: Patient_attrs_def)
    from get_queue_sort_attribute [OF sch h, of ?a "''no_such_attribute''"]
    obtain s2 where "\<exists>ps. ?C example_pair ?s1 ''no_such_attribute'' s2 ps" ..
    then obtain ps where c: "?C example_pair ?s1 ''no_such_attribute'' s2 ps" ..
    from c have "?a ''no_such_attribute'' = None \<longrightarrow>
         get_queue example_env ?a (Some ''no_such_attribute'') example_pair = (s2, Inl AttributeError)"
      by (elim conjE)
    with n show ?thesis by simp
  qed
  have 2: "snd (get_queue example_env ?a (Some ''triage_category'') example_pair) =
     Inr (make_response 300000000
           [example_patient ''b'' 1 20 ''admitted'', example_patient ''a'' 3 10 ''treatment''])"
  proof -
    have f: "?a ''triage_category'' = Some (\<lambda>p. PyInt (triage_category p))"
      by (simp add: Patient_attrs_def)
    from get_queue_sort_attribute [OF sch h, of ?a "''triage_category''"]
    obtain s2 where "\<exists>ps. ?C example_pair ?s1 ''triage_category'' s2 ps" ..
    then obtain ps where c: "?C example_pair ?s1 ''triage_category'' s2 ps" ..
    from c have st: "patients ?s1 \<noteq> [] \<longrightarrow> s2 = ?s1 \<and> ps = map snd (get_patients ?s1)"
      by (elim conjE)
    from c have q: "\<forall>f k. ?a ''triage_category'' = Some f \<and> (\<forall>p \<in> set ps. f p = PyInt (k p)) \<longrightarrow>
          get_queue example_env ?a (Some ''triage_category'') example_pair =
            (s2, Inr (make_response (request_time example_env) (sort_key k ps)))"
      by (elim conjE)
    from st ne have ps: "ps = map snd (get_patients ?s1)" by simp
    from q [rule_format, of "\<lambda>p. PyInt (triage_category p)" triage_category] f
    have "get_queue example_env ?a (Some ''triage_category'') example_pair =
        (s2, Inr (make_response (request_time example_env) (sort_key triage_category ps)))"
      by simp
    then show ?thesis
      unfolding ps by (simp only: example_pair_stored r) (simp add: example_patient_def)
  qed
  have 3: "snd (get_queue example_env ?a (Some ''id'') example_pair) =
     Inr (make_response 300000000
           [example_patient ''a'' 3 10 ''treatment'', example_patient ''b'' 1 20 ''admitted''])"
  proof -
    have f: "?a ''id'' = Some (\<lambda>p. PyStr (patient_id p))"
      by (simp add: Patient_attrs_def)
    from get_queue_sort_attribute [OF sch h, of ?a "''id''"]
    obtain s2 where "\<exists>ps. ?C example_pair ?s1 ''id'' s2 ps" ..
    then obtain ps where c: "?C example_pair ?s1 ''id'' s2 ps" ..
    from c have st: "patients ?s1 \<noteq> [] \<longrightarrow> s2 = ?s1 \<and> ps = map snd (get_patients ?s1)"
      by (elim conjE)
    from c have q: "\<forall>f k. ?a ''id'' = Some f \<and> (\<forall>p \<in> set ps. f p = PyStr (k p)) \<longrightarrow>
          get_queue example_env ?a (Some ''id'') example_pair =
            (s2, Inr (make_response (request_time example_env) (sort_key k ps)))"
      by (elim conjE)
    from st ne have ps: "ps = map snd (get_patients ?s1)" by simp
    from q [rule_format, of "\<lambda>p. PyStr (patient_id p)" patient_id] f
    have "get_queue example_env ?a (Some ''id'') example_pair =
        (s2, Inr (make_response (request_time example_env) (sort_key patient_id ps)))"
      by simp
    moreover have "sort_key patient_id
        [example_patient ''a'' 3 10 ''treatment'', example_patient ''b'' 1 20 ''admitted''] =
        [example_patient ''a'' 3 10 ''treatment'', example_patient ''b'' 1 20 ''admitted'']"
      by code_simp
    ultimately show ?thesis
      unfolding ps by (simp only: example_pair_stored r) simp
  qed
  have 4: "snd (get_queue example_env ?a (Some ''status'') example_pair) = Inl TypeError"
  proof -
    have f: "?a ''status'' = Some (\<lambda>p. PyDict)"
      by (simp add: Patient_attrs_def)
    from get_queue_sort_attribute [OF sch h, of ?a "''status''"]
    obtain s2 where "\<exists>ps. ?C example_pair ?s1 ''status'' s2 ps" ..
    then obtain ps where c: "?C example_pair ?s1 ''status'' s2 ps" ..
    from c have st: "patients ?s1 \<noteq> [] \<longrightarrow> s2 = ?s1 \<and> ps = map snd (get_patients ?s1)"
      by (elim conjE)
    from c have q: "\<forall>f. ?a ''status'' = Some f \<and> (\<forall>p \<in> set ps. f p = PyDict \<or> f p = PyMethod) \<and>
            2 \<le> length ps \<longrightarrow>
          get_queue example_env ?a (Some ''status'') example_pair = (s2, Inl TypeError)"
      by (elim conjE)
    from st ne have ps: "ps = map snd (get_patients ?s1)" by simp
    with len have l: "2 \<le> length ps" by simp
    from q [rule_format, of "\<lambda>p. PyDict"] f l
    have "get_queue example_env ?a (Some ''status'') example_pair = (s2, Inl TypeError)"
      by simp
    then show ?thesis by simp
  qed
  have 5: "snd (get_queue example_env ?a (Some ''no_such_attribute'') example_empty) = Inl AttributeError"
  proof -
    have n: "?a ''no_such_attribute'' = None" by (simp add: Patient_attrs_def)
    from get_queue_sort_attribute [OF sch_e he, of ?a "''no_such_attribute''"]
    obtain s2 where "\<exists>ps. ?C example_empty ?e1 ''no_such_attribute'' s2 ps" ..
    then obtain ps where c: "?C example_empty ?e1 ''no_such_attribute'' s2 ps" ..
    from c have "?a ''no_such_attribute'' = None \<longrightarrow>
         get_queue example_env ?a (Some ''no_such_attribute'') example_empty = (s2, Inl AttributeError)"
      by (elim conjE)
    with n show ?thesis by simp
  qed
  have 6: "snd (get_queue example_env ?a (Some ''queue_position'') example_empty) = Inl TypeError"
  proof -
    have f: "?a ''queue_position'' = Some (\<lambda>p. PyDict)"
      by (simp add: Patient_attrs_def)
    from get_queue_sort_attribute [OF sch_e he, of ?a "''queue_position''"]
    obtain s2 where "\<exists>ps. ?C example_empty ?e1 ''queue_position'' s2 ps" ..
    then obtain ps where c: "?C example_empty ?e1 ''queue_position'' s2 ps" ..
    from c have bs: "patients ?e1 = [] \<longrightarrow> length ps = 25 \<and>
          map patient_id ps =
            map patient_id (sort_key canonical_key
              (generate_mock_patients (mock_generated example_env) 25))"
      by (elim conjE)
    from c have q: "\<forall>f. ?a ''queue_position'' = Some f \<and>
            (\<forall>p \<in> set ps. f p = PyDict \<or> f p = PyMethod) \<and> 2 \<le> length ps \<longrightarrow>
          get_queue example_env ?a (Some ''queue_position'') example_empty = (s2, Inl TypeError)"
      by (elim conjE)
    from bs em have "length ps = 25" by simp
    then have l: "2 \<le> length ps" by simp
    from q [rule_format, of "\<lambda>p. PyDict"] f l
    have "get_queue example_env ?a (Some ''queue_position'') example_empty = (s2, Inl TypeError)"
      by simp
    then show ?thesis by simp
  qed
  have 7: "\<exists>r. snd (get_queue example_env ?a (Some ''triage_category'') example_empty) = Inr r \<and>
        waitingCount r = 25"
  proof -
    have f: "?a ''triage_category'' = Some (\<lambda>p. PyInt (triage_category p))"
      by (simp add: Patient_attrs_def)
    from get_queue_sort_attribute [OF sch_e he, of ?a "''triage_category''"]
    obtain s2 where "\<exists>ps. ?C example_empty ?e1 ''triage_category'' s2 ps" ..
    then obtain ps where c: "?C example_empty ?e1 ''triage_category'' s2 ps" ..
    from c have bs: "patients ?e1 = [] \<longrightarrow> length ps = 25 \<and>
          map patient_id ps =
            map patient_id (sort_key canonical_key
              (generate_mock_patients (mock_generated example_env) 25))"
      by (elim conjE)
    from c have q: "\<forall>f k. ?a ''triage_category'' = Some f \<and> (\<forall>p \<in> set ps. f p = PyInt (k p)) \<longrightarrow>
          get_queue example_env ?a (Some ''triage_category'') example_empty =
            (s2, Inr (make_response (request_time example_env) (sort_key k ps)))"
      by (elim conjE)
    from bs em have l: "length ps = 25" by simp
    from q [rule_format, of "\<lambda>p. PyInt (triage_category p)" triage_category] f
    have "get_queue example_env ?a (Some ''triage_category'') example_empty =
        (s2, Inr (make_response (request_time example_env) (sort_key triage_category ps)))"
      by simp
    then have "snd (get_queue example_env ?a (Some ''triage_category'') example_empty) =
        Inr (make_response (request_time example_env) (sort_key triage_category ps))"
      by simp
    moreover have "waitingCount (make_response (request_time example_env) (sort_key triage_category ps)) = 25"
      by (simp add: make_response_def l)
    ultimately show ?thesis by (intro exI conjI)
  qed
  have e: "patients example_empty = []" by (simp add: example_empty_def)
  from 1 2 3 4 e 5 6 7 show ?thesis by (intro conjI)
qed

text \<open>
  C10 as the spec states it fails: \<^verbatim>\<open>queue_position\<close> names an attribute of
  \<^verbatim>\<open>Patient\<close>, and the request sorted by it returns no list but fails with
  \<^verbatim>\<open>TypeError\<close>.
\<close>

theorem get_queue_sort_attribute_counterexample:
  "Patient_attrs 0 ''queue_position'' \<noteq> None \<and>
   snd (get_queue example_env (Patient_attrs 0) (Some ''queue_position'') example_pair) = Inl TypeError"
  by code_simp

end
